theory Spec2Isabelle
  imports Main
begin

text \<open>
  The two parsers of the repository: \<open>ReviewParser\<close> (\<open>src/parser/review_parser.py\<close>), which
  reads the reviews of a film from a page of Letterboxd, and \<open>WhereToWatchParser\<close>
  (\<open>src/parser/wheretowatch_parser.py\<close>), which reads the streaming services from a JSON
  payload. Each method is a function of the same name (without the leading underscore);
  an exception is a value \<open>Inl e\<close> of the result.
\<close>

section \<open>Python values shared by both parsers\<close>

subsection \<open>Strings\<close>

text \<open>
  A Python \<open>str\<close> is a sequence of Unicode code points. The review parser looks for the
  glyphs U+2605 (full star) and U+00BD (one half), which are no 8-bit characters, so a
  string is a list of code points. \<open>ustr\<close> embeds an ASCII literal.
\<close>

type_synonym ustring = "nat list"

definition ustr :: "string \<Rightarrow> ustring" where
  "ustr s = map of_char s"

text \<open>\<open>str.isspace\<close> on one code point; \<open>str.strip()\<close> and the pattern \<open>\s\<close> use it.\<close>

definition is_space :: "nat \<Rightarrow> bool" where
  "is_space c \<longleftrightarrow>
     (9 \<le> c \<and> c \<le> 13) \<or> (28 \<le> c \<and> c \<le> 32) \<or> c = 133 \<or> c = 160 \<or> c = 5760 \<or>
     (8192 \<le> c \<and> c \<le> 8202) \<or> c = 8232 \<or> c = 8233 \<or> c = 8239 \<or> c = 8287 \<or> c = 12288"

text \<open>\<open>s.strip(chars)\<close>: drop the characters of a class at both ends.\<close>

definition strip_chars :: "(nat \<Rightarrow> bool) \<Rightarrow> ustring \<Rightarrow> ustring" where
  "strip_chars P s = rev (dropWhile P (rev (dropWhile P s)))"

definition strip :: "ustring \<Rightarrow> ustring" where
  "strip s = strip_chars is_space s"

definition startswith :: "ustring \<Rightarrow> ustring \<Rightarrow> bool" where
  "startswith s p \<longleftrightarrow> take (length p) s = p"

text \<open>\<open>s.split(sep)\<close> for a separator of one character: the fields between separators.\<close>

fun split :: "nat \<Rightarrow> ustring \<Rightarrow> ustring list" where
  "split sep [] = [[]]"
| "split sep (c # cs) =
     (if c = sep then [] # split sep cs
      else (case split sep cs of f # fs \<Rightarrow> (c # f) # fs | [] \<Rightarrow> [[c]]))"

text \<open>\<open>" ".join(parts)\<close>.\<close>

fun join_space :: "ustring list \<Rightarrow> ustring" where
  "join_space [] = []"
| "join_space [x] = x"
| "join_space (x # y # ys) = x @ 32 # join_space (y # ys)"

text \<open>\<open>re.sub(r'\s+', ' ', text)\<close>: every maximal run of whitespace becomes one space.\<close>

function collapse_ws :: "ustring \<Rightarrow> ustring" where
  "collapse_ws [] = []"
| "collapse_ws (c # cs) =
     (if is_space c then 32 # collapse_ws (dropWhile is_space cs) else c # collapse_ws cs)"
  by pat_completeness auto
termination
  by (relation "measure length") (auto simp: less_Suc_eq_le length_dropWhile_le)

text \<open>
  \<open>s.replace(old, new)\<close>: the occurrences of \<open>old\<close> are replaced from left to right
  without overlap. With an empty \<open>old\<close> Python puts \<open>new\<close> around every character.
\<close>

fun replace_from :: "ustring \<Rightarrow> ustring \<Rightarrow> ustring \<Rightarrow> ustring" where
  "replace_from old new [] = []"
| "replace_from old new (c # cs) =
     (if take (length old) (c # cs) = old
      then new @ replace_from old new (drop (length old - 1) cs)
      else c # replace_from old new cs)"

definition replace :: "ustring \<Rightarrow> ustring \<Rightarrow> ustring \<Rightarrow> ustring" where
  "replace s old new =
     (if old = [] then new @ concat (map (\<lambda>c. c # new) s) else replace_from old new s)"

text \<open>\<open>p in s\<close> on two strings: \<open>p\<close> occurs in \<open>s\<close> as a contiguous piece.\<close>

fun contains :: "ustring \<Rightarrow> ustring \<Rightarrow> bool" where
  "contains [] p \<longleftrightarrow> p = []"
| "contains (c # cs) p \<longleftrightarrow> take (length p) (c # cs) = p \<or> contains cs p"

text \<open>The decimal digits of a natural number, as \<open>str\<close> prints them.\<close>

fun decimal :: "nat \<Rightarrow> ustring" where
  "decimal n = (if n < 10 then [48 + n] else decimal (n div 10) @ [48 + n mod 10])"

declare decimal.simps [simp del]

subsection \<open>Exceptions\<close>

text \<open>
  The exceptions the two parsers can raise. \<open>KeyError\<close> and \<open>ValueError\<close> carry
  \<open>str(e)\<close>, which \<open>get_services\<close> copies into its own message; \<open>JSONDecodeError\<close> is the
  decoder's subclass of \<open>ValueError\<close>, kept apart because the handler names it.
  \<open>RecursionError\<close> is what the decoder raises on a text nested too deeply.
\<close>

datatype error =
    AttributeError
  | TypeError
  | IndexError
  | OverflowError
  | RecursionError
  | KeyError ustring
  | ValueError ustring
  | JSONDecodeError ustring

subsection \<open>Floats\<close>

text \<open>
  A Python \<open>float\<close> is an IEEE double: \<open>Finite s m e\<close> stands for
  \<open>(-1)^s * m * 2^e\<close>, so that \<open>-0.0\<close> is \<open>Finite True 0 e\<close>.
\<close>

datatype pyfloat = Finite bool nat int | Infinite bool | NaN

fun bit_length :: "nat \<Rightarrow> nat" where
  "bit_length n = (if n = 0 then 0 else Suc (bit_length (n div 2)))"

declare bit_length.simps [simp del]

text \<open>
  \<open>n.bit_length()\<close>: \<open>bit_length n \<le> k\<close> says \<open>n < 2^k\<close>. Rounding a natural number to 53
  significant bits, ties to even: the result is \<open>m * 2^sh\<close>.
\<close>

definition round53 :: "nat \<Rightarrow> nat \<times> nat" where
  "round53 a =
     (let l = bit_length a in
      if l \<le> 53 then (a, 0)
      else
        let sh = l - 53; q = a div 2 ^ sh; r = a mod 2 ^ sh
        in (if 2 ^ sh < 2 * r \<or> (2 * r = 2 ^ sh \<and> odd q) then q + 1 else q, sh))"

text \<open>
  \<open>float(n)\<close> for an \<open>int\<close>. The largest double is below \<open>2^1024\<close>: a rounded value of
  more than 1024 bits is an \<open>OverflowError\<close>.
\<close>

definition float_of_int :: "int \<Rightarrow> error + pyfloat" where
  "float_of_int n =
     (case round53 (nat \<bar>n\<bar>) of (m, sh) \<Rightarrow>
        if 1024 < bit_length m + sh then Inl OverflowError
        else Inr (Finite (n < 0) m (int sh)))"

text \<open>\<open>n / 2\<close> for an \<open>int\<close>: true division, which yields a float.\<close>

definition true_div2 :: "int \<Rightarrow> error + pyfloat" where
  "true_div2 n =
     (case round53 (nat \<bar>n\<bar>) of (m, sh) \<Rightarrow>
        if 1025 < bit_length m + sh then Inl OverflowError
        else Inr (Finite (n < 0) m (int sh - 1)))"

text \<open>
  \<open>c + (0.5 if half else 0.0)\<close> for a count \<open>c\<close>: the count is converted to a float and
  the sum is rounded. Below \<open>2^52\<close> the sum is exact; from there up to \<open>2^53\<close> the doubles
  are the integers and \<open>c + 0.5\<close> is a tie, which goes to the even neighbour; above, the
  half is lost.
\<close>

definition int_plus_half :: "nat \<Rightarrow> bool \<Rightarrow> error + pyfloat" where
  "int_plus_half c half =
     (case float_of_int (int c) of
        Inl e \<Rightarrow> Inl e
      | Inr f \<Rightarrow>
          Inr (if \<not> half then f
               else if bit_length c \<le> 52 then Finite False (2 * c + 1) (- 1)
               else if bit_length c \<le> 53 \<and> odd c then Finite False (c + 1) 0
               else f))"

text \<open>The number of halves in a float, when it is a multiple of one half.\<close>

fun half_units :: "pyfloat \<Rightarrow> nat option" where
  "half_units (Finite s m e) =
     (if - 1 \<le> e then Some (m * 2 ^ nat (e + 1))
      else if m mod 2 ^ nat (- e - 1) = 0 then Some (m div 2 ^ nat (- e - 1))
      else None)"
| "half_units (Infinite s) = None"
| "half_units NaN = None"

text \<open>\<open>bool(f)\<close>: a float is falsy when it is zero, of either sign.\<close>

fun float_truthy :: "pyfloat \<Rightarrow> bool" where
  "float_truthy (Finite s m e) \<longleftrightarrow> m \<noteq> 0"
| "float_truthy (Infinite s) \<longleftrightarrow> True"
| "float_truthy NaN \<longleftrightarrow> True"

text \<open>The sign bit, and \<open>f < 0\<close>.\<close>

fun sign_bit :: "pyfloat \<Rightarrow> bool" where
  "sign_bit (Finite s m e) \<longleftrightarrow> s"
| "sign_bit (Infinite s) \<longleftrightarrow> s"
| "sign_bit NaN \<longleftrightarrow> False"

fun float_negative :: "pyfloat \<Rightarrow> bool" where
  "float_negative (Finite s m e) \<longleftrightarrow> s \<and> m \<noteq> 0"
| "float_negative (Infinite s) \<longleftrightarrow> s"
| "float_negative NaN \<longleftrightarrow> False"

subsection \<open>Decoded JSON\<close>

text \<open>
  What \<open>json.loads\<close> returns: \<open>None\<close>, \<open>bool\<close>, \<open>int\<close>, \<open>float\<close>, \<open>str\<close>, \<open>list\<close> and
  \<open>dict\<close>. A dict is its items in insertion order; a key is looked up with \<open>map_of\<close>.
\<close>

datatype json =
    JNull
  | JBool bool
  | JInt int
  | JFloat pyfloat
  | JString ustring
  | JArray "json list"
  | JObject "(ustring \<times> json) list"

subsection \<open>The parsed document\<close>

text \<open>
  The tree that \<open>BeautifulSoup(html_content, 'html.parser')\<close> builds. A \<open>Tag\<close> has its name,
  the tokens of its \<open>class\<close> attribute (which the parser splits at whitespace; none when the
  attribute is absent), its other attributes (each a string), and its children.
  \<open>NavigableString\<close> is text that \<open>get_text\<close> returns; \<open>OtherString\<close> is a string that
  \<open>get_text\<close> skips (a comment, a declaration, the content of a script).
\<close>

datatype node =
    Tag ustring "ustring list" "(ustring \<times> ustring) list" "node list"
  | NavigableString ustring
  | OtherString ustring

fun tag_name :: "node \<Rightarrow> ustring option" where
  "tag_name (Tag n cs as ch) = Some n"
| "tag_name _ = None"

fun classes :: "node \<Rightarrow> ustring list" where
  "classes (Tag n cs as ch) = cs"
| "classes _ = []"

fun attrs :: "node \<Rightarrow> (ustring \<times> ustring) list" where
  "attrs (Tag n cs as ch) = as"
| "attrs _ = []"

text \<open>\<open>tag.descendants\<close>: everything below a tag, in document order.\<close>

fun descendants :: "node \<Rightarrow> node list" where
  "descendants (Tag n cs as ch) = concat (map (\<lambda>c. c # descendants c) ch)"
| "descendants (NavigableString s) = []"
| "descendants (OtherString s) = []"

text \<open>
  \<open>tag.find_all(name, class_=c)\<close> and \<open>tag.find(name, class_=c)\<close>: the descendants that are
  tags of that name and, when a class is asked for, carry it among their class tokens;
  \<open>find\<close> returns the first one or \<open>None\<close>.
\<close>

definition matches :: "ustring \<Rightarrow> ustring option \<Rightarrow> node \<Rightarrow> bool" where
  "matches n c t \<longleftrightarrow>
     tag_name t = Some n \<and> (case c of None \<Rightarrow> True | Some k \<Rightarrow> k \<in> set (classes t))"

definition find_all :: "node \<Rightarrow> ustring \<Rightarrow> ustring option \<Rightarrow> node list" where
  "find_all t n c = filter (matches n c) (descendants t)"

definition find_tag :: "node \<Rightarrow> ustring \<Rightarrow> ustring option \<Rightarrow> node option" where
  "find_tag t n c = (case find_all t n c of [] \<Rightarrow> None | x # xs \<Rightarrow> Some x)"

text \<open>\<open>tag.get_text()\<close>: the text below a tag, concatenated in document order.\<close>

fun get_text :: "node \<Rightarrow> ustring" where
  "get_text (Tag n cs as ch) = concat (map get_text ch)"
| "get_text (NavigableString s) = s"
| "get_text (OtherString s) = []"

section \<open>Library functions\<close>

text \<open>
  The parsers call \<open>int\<close>, \<open>str\<close> and \<open>float\<close>, \<open>urllib.parse.urljoin\<close>,
  \<open>datetime.fromisoformat\<close> with \<open>strftime\<close>, and \<open>json.loads\<close>. Each is defined below on the
  inputs where its result is plain (decimal digits, halves that a double holds exactly, a
  path of unreserved characters, a timestamp in the extended format). On every other input
  the result is taken from a \<open>pylib\<close>, which stands for the Python installation: the
  theorems hold for every \<open>pylib\<close>. The decoder \<open>json.loads\<close> is taken from it as a whole:
  it returns the decoded value or raises, a \<open>JSONDecodeError\<close> for a text it cannot read,
  and also other exceptions (a plain \<open>ValueError\<close> for an integer of more digits than the
  conversion limit, a \<open>RecursionError\<close>).
\<close>

datatype month = Jan | Feb | Mar | Apr | May | Jun | Jul | Aug | Sep | Oct | Nov | Dec

record datetime =
  year :: nat
  month :: month
  day :: nat

record pylib =
  lib_int_digits :: "ustring \<Rightarrow> nat option"
  lib_int_message :: "ustring \<Rightarrow> ustring"
  lib_float_repr :: "pyfloat \<Rightarrow> ustring"
  lib_float_of_str :: "ustring \<Rightarrow> ustring + pyfloat"
  lib_urljoin :: "ustring \<Rightarrow> ustring \<Rightarrow> error + ustring"
  lib_fromisoformat :: "ustring \<Rightarrow> datetime option"
  lib_year :: "nat \<Rightarrow> ustring"
  lib_json_loads :: "ustring \<Rightarrow> error + json"

subsection \<open>\<open>int(s)\<close>\<close>

definition is_digit :: "nat \<Rightarrow> bool" where
  "is_digit c \<longleftrightarrow> 48 \<le> c \<and> c \<le> 57"

definition digits_value :: "ustring \<Rightarrow> nat" where
  "digits_value s = foldl (\<lambda>a c. 10 * a + (c - 48)) 0 s"

text \<open>
  The whitespace \<open>int\<close> skips at both ends: that of \<open>str.isspace\<close> without the four
  separators U+001C to U+001F.
\<close>

definition int_space :: "nat \<Rightarrow> bool" where
  "int_space c \<longleftrightarrow> is_space c \<and> \<not> (28 \<le> c \<and> c \<le> 31)"

text \<open>
  The digits after the sign. Up to 4300 ASCII digits are read in base ten; what Python
  makes of anything else (underscores, other decimal digits, longer numerals: a number or
  a \<open>ValueError\<close>) is the library's answer.
\<close>

definition int_digits :: "pylib \<Rightarrow> ustring \<Rightarrow> nat option" where
  "int_digits L b =
     (if b \<noteq> [] \<and> length b \<le> 4300 \<and> list_all is_digit b then Some (digits_value b)
      else lib_int_digits L b)"

definition py_int :: "pylib \<Rightarrow> ustring \<Rightarrow> error + int" where
  "py_int L s =
     (let t = strip_chars int_space s;
          neg = (take 1 t = [45]);
          b = (if take 1 t = [45] \<or> take 1 t = [43] then drop 1 t else t)
      in case int_digits L b of
           None \<Rightarrow> Inl (ValueError (lib_int_message L s))
         | Some n \<Rightarrow> Inr (if neg then - int n else int n))"

subsection \<open>\<open>str(f)\<close> for a float\<close>

text \<open>
  A multiple of one half below \<open>2^52\<close> prints as its integer part, a point and \<open>0\<close> or
  \<open>5\<close>. Other floats print with more digits or an exponent, as the library says.
\<close>

definition float_str :: "pylib \<Rightarrow> pyfloat \<Rightarrow> ustring" where
  "float_str L f =
     (case half_units f of
        None \<Rightarrow> lib_float_repr L f
      | Some t \<Rightarrow>
          if bit_length t \<le> 53
          then (if sign_bit f then [45] else [])
               @ decimal (t div 2) @ [46, if even t then 48 else 53]
          else lib_float_repr L f)"

subsection \<open>\<open>urljoin(base, url)\<close>\<close>

definition BASE_URL :: ustring where
  "BASE_URL = ustr ''https://letterboxd.com''"

definition url_char :: "nat \<Rightarrow> bool" where
  "url_char c \<longleftrightarrow>
     (97 \<le> c \<and> c \<le> 122) \<or> (65 \<le> c \<and> c \<le> 90) \<or> is_digit c \<or>
     c = 45 \<or> c = 46 \<or> c = 95 \<or> c = 126 \<or> c = 47"

text \<open>
  A path from the root, made of letters, digits, \<open>-\<close>, \<open>.\<close>, \<open>_\<close>, \<open>~\<close> and \<open>/\<close>, that does
  not begin with \<open>//\<close> and has no segment \<open>.\<close> or \<open>..\<close>: joined to the site's base it is
  appended as it is. Other references (a network location, dot segments, a query) are
  resolved by the library, which may also raise.
\<close>

definition simple_path :: "ustring \<Rightarrow> bool" where
  "simple_path u \<longleftrightarrow>
     startswith u [47] \<and> \<not> startswith u [47, 47] \<and> list_all url_char u \<and>
     list_all (\<lambda>seg. seg \<noteq> [46] \<and> seg \<noteq> [46, 46]) (split 47 u)"

definition urljoin :: "pylib \<Rightarrow> ustring \<Rightarrow> ustring \<Rightarrow> error + ustring" where
  "urljoin L base url =
     (if base = BASE_URL \<and> simple_path url then Inr (base @ url) else lib_urljoin L base url)"

subsection \<open>\<open>datetime.fromisoformat(s)\<close> and \<open>strftime('%d %b %Y')\<close>\<close>

definition number :: "ustring \<Rightarrow> nat option" where
  "number s = (if s \<noteq> [] \<and> list_all is_digit s then Some (digits_value s) else None)"

definition month_of_nat :: "nat \<Rightarrow> month option" where
  "month_of_nat m =
     (if 1 \<le> m \<and> m \<le> 12 then Some ([Jan, Feb, Mar, Apr, May, Jun, Jul, Aug, Sep, Oct, Nov, Dec] ! (m - 1))
      else None)"

definition is_leap :: "nat \<Rightarrow> bool" where
  "is_leap y \<longleftrightarrow> y mod 4 = 0 \<and> (y mod 100 \<noteq> 0 \<or> y mod 400 = 0)"

fun days_in_month :: "nat \<Rightarrow> month \<Rightarrow> nat" where
  "days_in_month y Feb = (if is_leap y then 29 else 28)"
| "days_in_month y Apr = 30"
| "days_in_month y Jun = 30"
| "days_in_month y Sep = 30"
| "days_in_month y Nov = 30"
| "days_in_month y m = 31"

text \<open>\<open>YYYY-MM-DD\<close> naming a day of the calendar.\<close>

definition iso_date :: "ustring \<Rightarrow> datetime option" where
  "iso_date s =
     (if length s = 10 \<and> s ! 4 = 45 \<and> s ! 7 = 45 then
        (case (number (take 4 s), number (take 2 (drop 5 s)), number (drop 8 s)) of
           (Some y, Some m, Some d) \<Rightarrow>
             (case month_of_nat m of
                Some mo \<Rightarrow>
                  if 1 \<le> y \<and> 1 \<le> d \<and> d \<le> days_in_month y mo
                  then Some \<lparr>year = y, month = mo, day = d\<rparr> else None
              | None \<Rightarrow> None)
         | _ \<Rightarrow> None)
      else None)"

text \<open>\<open>HH:MM:SS\<close> and an offset \<open>+HH:MM\<close> or \<open>-HH:MM\<close>.\<close>

definition iso_time :: "ustring \<Rightarrow> bool" where
  "iso_time s \<longleftrightarrow>
     length s = 8 \<and> s ! 2 = 58 \<and> s ! 5 = 58 \<and>
     (case (number (take 2 s), number (take 2 (drop 3 s)), number (drop 6 s)) of
        (Some h, Some m, Some sec) \<Rightarrow> h < 24 \<and> m < 60 \<and> sec < 60
      | _ \<Rightarrow> False)"

definition iso_offset :: "ustring \<Rightarrow> bool" where
  "iso_offset s \<longleftrightarrow>
     length s = 6 \<and> (s ! 0 = 43 \<or> s ! 0 = 45) \<and> s ! 3 = 58 \<and>
     (case (number (take 2 (drop 1 s)), number (drop 4 s)) of
        (Some h, Some m) \<Rightarrow> h < 24 \<and> m < 60
      | _ \<Rightarrow> False)"

text \<open>
  A date, or a date, \<open>T\<close>, a time and perhaps an offset, is parsed here; the date fields
  are those written, whatever the offset. Whether any other string is accepted, and as
  which day, is the library's answer (\<open>None\<close> for a \<open>ValueError\<close>).
\<close>

definition fromisoformat :: "pylib \<Rightarrow> ustring \<Rightarrow> datetime option" where
  "fromisoformat L s =
     (let r = drop 10 s in
      if r = [] \<or> (take 1 r = [84] \<and> iso_time (take 8 (drop 1 r)) \<and>
                   (drop 9 r = [] \<or> iso_offset (drop 9 r)))
      then (case iso_date (take 10 s) of Some d \<Rightarrow> Some d | None \<Rightarrow> lib_fromisoformat L s)
      else lib_fromisoformat L s)"

fun month_abbr :: "month \<Rightarrow> ustring" where
  "month_abbr Jan = ustr ''Jan''"
| "month_abbr Feb = ustr ''Feb''"
| "month_abbr Mar = ustr ''Mar''"
| "month_abbr Apr = ustr ''Apr''"
| "month_abbr May = ustr ''May''"
| "month_abbr Jun = ustr ''Jun''"
| "month_abbr Jul = ustr ''Jul''"
| "month_abbr Aug = ustr ''Aug''"
| "month_abbr Sep = ustr ''Sep''"
| "month_abbr Oct = ustr ''Oct''"
| "month_abbr Nov = ustr ''Nov''"
| "month_abbr Dec = ustr ''Dec''"

text \<open>
  \<open>dt.strftime('%d %b %Y')\<close> in the C locale: the day on two digits, the English
  abbreviation of the month, the year. A year below 1000 is padded or not as the
  platform's C library decides.
\<close>

definition strftime :: "pylib \<Rightarrow> datetime \<Rightarrow> ustring" where
  "strftime L dt =
     (if day dt < 10 then 48 # decimal (day dt) else decimal (day dt)) @ [32] @
     month_abbr (month dt) @ [32] @
     (if 1000 \<le> year dt then decimal (year dt) else lib_year L (year dt))"

section \<open>The review parser\<close>

record Review =
  user :: ustring
  user_image :: ustring
  review_date :: ustring
  review_text :: ustring
  rating :: "ustring option"
  likes_count :: "int option"
  contains_spoilers :: bool

text \<open>\<open>xs[i]\<close>, which raises \<open>IndexError\<close> out of range, and \<open>d[k]\<close> on the attributes of a tag.\<close>

definition item :: "'a list \<Rightarrow> nat \<Rightarrow> error + 'a" where
  "item xs i = (if i < length xs then Inr (xs ! i) else Inl IndexError)"

definition attr :: "node \<Rightarrow> ustring \<Rightarrow> error + ustring" where
  "attr t k =
     (case map_of (attrs t) k of
        None \<Rightarrow> Inl (KeyError ([39] @ k @ [39]))
      | Some v \<Rightarrow> Inr v)"

text \<open>
  In each function below the argument that \<open>find\<close> produced is a \<open>node option\<close>: \<open>None\<close> is
  Python's \<open>None\<close>, on which a method call raises \<open>AttributeError\<close>. A tag is always truthy.
\<close>

definition extract_user_image :: "pylib \<Rightarrow> node option \<Rightarrow> error + ustring" where
  "extract_user_image L avatar_element =
     (case avatar_element of
        None \<Rightarrow> Inr []
      | Some a \<Rightarrow>
          (case find_tag a (ustr ''img'') None of
             None \<Rightarrow> Inr []
           | Some img_element \<Rightarrow>
               (case map_of (attrs img_element) (ustr ''src'') of
                  None \<Rightarrow> Inr []
                | Some img_url \<Rightarrow>
                    if startswith img_url (ustr ''/'') then urljoin L BASE_URL img_url
                    else Inr img_url)))"

definition extract_rating :: "pylib \<Rightarrow> node option \<Rightarrow> error + ustring option" where
  "extract_rating L attribution_block =
     (case attribution_block of
        None \<Rightarrow> Inl AttributeError
      | Some ab \<Rightarrow>
          (case find_tag ab (ustr ''span'') (Some (ustr ''rating'')) of
             None \<Rightarrow> Inr None
           | Some rating_span \<Rightarrow>
               (case filter (\<lambda>c. startswith c (ustr ''rated-'')) (classes rating_span) of
                  rc # rcs \<Rightarrow>
                    (case item (split 45 rc) 1 of
                       Inl e \<Rightarrow> Inl e
                     | Inr tok \<Rightarrow>
                         (case py_int L tok of
                            Inl e \<Rightarrow> Inl e
                          | Inr n \<Rightarrow>
                              (case true_div2 n of
                                 Inl e \<Rightarrow> Inl e
                               | Inr numeric_rating \<Rightarrow> Inr (Some (float_str L numeric_rating)))))
                | [] \<Rightarrow>
                    (let stars_text = strip (get_text rating_span) in
                     if stars_text = [] then Inr None
                     else
                       (let full_stars = count_list stars_text 9733;
                            half_star = (189 \<in> set stars_text)
                        in case int_plus_half full_stars half_star of
                             Inl e \<Rightarrow> Inl e
                           | Inr r \<Rightarrow> Inr (Some (float_str L r)))))))"

definition extract_likes_count :: "pylib \<Rightarrow> node \<Rightarrow> error + int option" where
  "extract_likes_count L review_block =
     (case find_tag review_block (ustr ''p'') (Some (ustr ''like-link-target'')) of
        None \<Rightarrow> Inr None
      | Some likes_element \<Rightarrow>
          (case map_of (attrs likes_element) (ustr ''data-count'') of
             None \<Rightarrow> Inr None
           | Some v \<Rightarrow> (case py_int L v of Inl e \<Rightarrow> Inl e | Inr n \<Rightarrow> Inr (Some n))))"

definition clean_review_text :: "ustring \<Rightarrow> ustring" where
  "clean_review_text text = replace (strip (collapse_ws text)) (ustr ''<br>'') [10]"

definition extract_review_date :: "pylib \<Rightarrow> node option \<Rightarrow> error + ustring" where
  "extract_review_date L attribution_block =
     (case attribution_block of
        None \<Rightarrow> Inl AttributeError
      | Some ab \<Rightarrow>
          (case find_tag ab (ustr ''span'') (Some (ustr ''_nobr'')) of
             None \<Rightarrow> Inr []
           | Some date_span \<Rightarrow>
               (case find_tag date_span (ustr ''time'') None of
                  None \<Rightarrow> Inr (strip (get_text date_span))
                | Some time_element \<Rightarrow>
                    (case map_of (attrs time_element) (ustr ''datetime'') of
                       None \<Rightarrow> Inr (strip (get_text date_span))
                     | Some v \<Rightarrow>
                         (case fromisoformat L (replace v (ustr ''Z'') (ustr ''+00:00'')) of
                            Some dt \<Rightarrow> Inr (strftime L dt)
                          | None \<Rightarrow> Inr (strip (get_text date_span)))))))"

definition extract_spoiler_text :: "node option \<Rightarrow> ustring \<times> bool" where
  "extract_spoiler_text body_text =
     (case body_text of
        None \<Rightarrow> ([], False)
      | Some b \<Rightarrow>
          (case find_tag b (ustr ''p'') (Some (ustr ''contains-spoilers'')) of
             Some spoiler_p \<Rightarrow>
               (case find_tag b (ustr ''div'') (Some (ustr ''hidden-spoilers'')) of
                  Some hidden_div \<Rightarrow>
                    (clean_review_text
                       (join_space (map get_text (find_all hidden_div (ustr ''p'') None))), True)
                | None \<Rightarrow> (clean_review_text [], True))
           | None \<Rightarrow>
               (clean_review_text (join_space (map get_text (find_all b (ustr ''p'') None))),
                False)))"

text \<open>
  The body of the loop of \<open>extract_reviews\<close> on one review element: an exception, \<open>None\<close>
  when the element is skipped (\<open>continue\<close>), or the review that is appended.
\<close>

definition extract_review :: "pylib \<Rightarrow> node \<Rightarrow> error + Review option" where
  "extract_review L element =
     (let avatar = find_tag element (ustr ''a'') (Some (ustr ''avatar'')) in
      case (case avatar of
              None \<Rightarrow> Inr []
            | Some a \<Rightarrow>
                (case attr a (ustr ''href'') of
                   Inl e \<Rightarrow> Inl e
                 | Inr h \<Rightarrow> Inr (strip_chars (\<lambda>c. c = 47) h))) of
        Inl e \<Rightarrow> Inl e
      | Inr usr \<Rightarrow>
      (case extract_user_image L avatar of
        Inl e \<Rightarrow> Inl e
      | Inr img \<Rightarrow>
      (case find_tag element (ustr ''div'') (Some (ustr ''film-detail-content'')) of
        None \<Rightarrow> Inr None
      | Some content_div \<Rightarrow>
      (let attribution_block =
             find_tag content_div (ustr ''div'') (Some (ustr ''attribution-block''));
           body_text = find_tag content_div (ustr ''div'') (Some (ustr ''body-text''));
           (text, spoilers) = extract_spoiler_text body_text
       in
      (case extract_review_date L attribution_block of
        Inl e \<Rightarrow> Inl e
      | Inr date \<Rightarrow>
      (case extract_rating L attribution_block of
        Inl e \<Rightarrow> Inl e
      | Inr rate \<Rightarrow>
      (case extract_likes_count L content_div of
        Inl e \<Rightarrow> Inl e
      | Inr likes \<Rightarrow>
          Inr (Some \<lparr>user = usr, user_image = img, review_date = date, review_text = text,
                     rating = rate, likes_count = likes, contains_spoilers = spoilers\<rparr>))))))))"

text \<open>The loop: the first exception ends it, a skipped element adds nothing.\<close>

fun extract_loop :: "pylib \<Rightarrow> node list \<Rightarrow> error + Review list" where
  "extract_loop L [] = Inr []"
| "extract_loop L (element # rest) =
     (case extract_review L element of
        Inl e \<Rightarrow> Inl e
      | Inr None \<Rightarrow> extract_loop L rest
      | Inr (Some review) \<Rightarrow>
          (case extract_loop L rest of Inl e \<Rightarrow> Inl e | Inr reviews \<Rightarrow> Inr (review # reviews)))"

definition extract_reviews :: "pylib \<Rightarrow> node \<Rightarrow> error + Review list" where
  "extract_reviews L soup =
     extract_loop L (find_all soup (ustr ''li'') (Some (ustr ''film-detail'')))"

section \<open>The streaming-service parser\<close>

text \<open>
  The dataclass does not check the types of its fields: a field holds whatever JSON value
  the entry has under that key, the empty string when the key is missing. The field
  \<open>locale\<close> is \<open>locale_code\<close> here, \<open>locale\<close> being a keyword.
\<close>

record StreamingService =
  name :: json
  icon :: json
  locale_code :: json
  viewUrl :: json
  format :: json
  type :: json
  price :: "pyfloat option"
  currency :: json

text \<open>\<open>bool(v)\<close> for a decoded value.\<close>

fun truthy :: "json \<Rightarrow> bool" where
  "truthy JNull \<longleftrightarrow> False"
| "truthy (JBool b) \<longleftrightarrow> b"
| "truthy (JInt n) \<longleftrightarrow> n \<noteq> 0"
| "truthy (JFloat f) \<longleftrightarrow> float_truthy f"
| "truthy (JString s) \<longleftrightarrow> s \<noteq> []"
| "truthy (JArray xs) \<longleftrightarrow> xs \<noteq> []"
| "truthy (JObject kvs) \<longleftrightarrow> kvs \<noteq> []"

text \<open>
  \<open>float(v)\<close> for a decoded value. A string that is no number raises \<open>ValueError\<close> with the
  message \<open>could not convert string to float:\<close> and the \<open>repr\<close> of the string.
\<close>

definition float_message :: ustring where
  "float_message = ustr ''could not convert string to float: ''"

fun py_float :: "pylib \<Rightarrow> json \<Rightarrow> error + pyfloat" where
  "py_float L (JInt n) = float_of_int n"
| "py_float L (JFloat f) = Inr f"
| "py_float L (JBool b) = Inr (Finite False (if b then 1 else 0) 0)"
| "py_float L (JString s) =
     (case lib_float_of_str L s of
        Inl r \<Rightarrow> Inl (ValueError (float_message @ r))
      | Inr f \<Rightarrow> Inr f)"
| "py_float L JNull = Inl TypeError"
| "py_float L (JArray xs) = Inl TypeError"
| "py_float L (JObject kvs) = Inl TypeError"

text \<open>\<open>d.get(k, default)\<close> on the items of a dict.\<close>

definition get :: "(ustring \<times> json) list \<Rightarrow> ustring \<Rightarrow> json \<Rightarrow> json" where
  "get d k dflt = (case map_of d k of None \<Rightarrow> dflt | Some v \<Rightarrow> v)"

text \<open>
  \<open>_parse_service\<close>: only a dict has \<open>get\<close>. The price is converted when
  \<open>service_data.get('price')\<close> is truthy.
\<close>

definition parse_service :: "pylib \<Rightarrow> json \<Rightarrow> error + StreamingService" where
  "parse_service L service_data =
     (case service_data of
        JObject d \<Rightarrow>
          (case (if truthy (get d (ustr ''price'') JNull)
                 then (case py_float L (get d (ustr ''price'') JNull) of
                         Inl e \<Rightarrow> Inl e
                       | Inr f \<Rightarrow> Inr (Some f))
                 else Inr None) of
             Inl e \<Rightarrow> Inl e
           | Inr p \<Rightarrow>
               Inr \<lparr>name = get d (ustr ''name'') (JString []),
                    icon = get d (ustr ''icon'') (JString []),
                    locale_code = get d (ustr ''locale'') (JString []),
                    viewUrl = get d (ustr ''viewUrl'') (JString []),
                    format = get d (ustr ''format'') (JString []),
                    type = get d (ustr ''type'') (JString []),
                    price = p,
                    currency = get d (ustr ''currency'') (JString [])\<rparr>)
      | _ \<Rightarrow> Inl AttributeError)"

text \<open>\<open>category in best_data\<close>, \<open>best_data[category]\<close> and iteration, for a decoded value.\<close>

fun py_in :: "ustring \<Rightarrow> json \<Rightarrow> error + bool" where
  "py_in k (JObject d) = Inr (k \<in> set (map fst d))"
| "py_in k (JArray xs) = Inr (JString k \<in> set xs)"
| "py_in k (JString s) = Inr (contains s k)"
| "py_in k _ = Inl TypeError"

fun getitem :: "json \<Rightarrow> ustring \<Rightarrow> error + json" where
  "getitem (JObject d) k =
     (case map_of d k of None \<Rightarrow> Inl (KeyError ([39] @ k @ [39])) | Some v \<Rightarrow> Inr v)"
| "getitem _ k = Inl TypeError"

fun py_iter :: "json \<Rightarrow> error + json list" where
  "py_iter (JArray xs) = Inr xs"
| "py_iter (JObject d) = Inr (map JString (remdups (map fst d)))"
| "py_iter (JString s) = Inr (map (\<lambda>c. JString [c]) s)"
| "py_iter _ = Inl TypeError"

text \<open>The list comprehension: the entries in order, ended by the first exception.\<close>

fun parse_services :: "pylib \<Rightarrow> json list \<Rightarrow> error + StreamingService list" where
  "parse_services L [] = Inr []"
| "parse_services L (service_data # rest) =
     (case parse_service L service_data of
        Inl e \<Rightarrow> Inl e
      | Inr s \<Rightarrow>
          (case parse_services L rest of Inl e \<Rightarrow> Inl e | Inr ss \<Rightarrow> Inr (s # ss)))"

text \<open>
  The loop over the categories. The result dict is its items in insertion order.
\<close>

fun category_loop ::
  "pylib \<Rightarrow> json \<Rightarrow> ustring list \<Rightarrow> error + (ustring \<times> StreamingService list) list" where
  "category_loop L best_data [] = Inr []"
| "category_loop L best_data (category # rest) =
     (case py_in category best_data of
        Inl e \<Rightarrow> Inl e
      | Inr False \<Rightarrow> category_loop L best_data rest
      | Inr True \<Rightarrow>
          (case getitem best_data category of
             Inl e \<Rightarrow> Inl e
           | Inr v \<Rightarrow>
               (case py_iter v of
                  Inl e \<Rightarrow> Inl e
                | Inr entries \<Rightarrow>
                    (case parse_services L entries of
                       Inl e \<Rightarrow> Inl e
                     | Inr services \<Rightarrow>
                         (case category_loop L best_data rest of
                            Inl e \<Rightarrow> Inl e
                          | Inr result \<Rightarrow> Inr ((category, services) # result))))))"

definition categories :: "ustring list" where
  "categories = [ustr ''stream'', ustr ''rent'', ustr ''buy'']"

text \<open>The body of the \<open>try\<close> block.\<close>

definition get_services_body ::
  "pylib \<Rightarrow> ustring \<Rightarrow> error + (ustring \<times> StreamingService list) list" where
  "get_services_body L content =
     (case lib_json_loads L content of
        Inl e \<Rightarrow> Inl e
      | Inr data \<Rightarrow>
          (case data of
             JObject d \<Rightarrow> category_loop L (get d (ustr ''best'') (JObject [])) categories
           | _ \<Rightarrow> Inl AttributeError))"

definition parse_message :: ustring where
  "parse_message = ustr ''Could not parse streaming services data: ''"

text \<open>
  \<open>get_services\<close>: the handler turns a \<open>JSONDecodeError\<close> and a \<open>KeyError\<close> into a
  \<open>ValueError\<close> whose message ends with \<open>str(e)\<close>; every other exception passes.
\<close>

definition get_services ::
  "pylib \<Rightarrow> ustring \<Rightarrow> error + (ustring \<times> StreamingService list) list" where
  "get_services L content =
     (case get_services_body L content of
        Inl (JSONDecodeError msg) \<Rightarrow> Inl (ValueError (parse_message @ msg))
      | Inl (KeyError msg) \<Rightarrow> Inl (ValueError (parse_message @ msg))
      | r \<Rightarrow> r)"

section \<open>Reference renderings and worked inputs\<close>

text \<open>
  The decimal rendering of \<open>n / 2\<close> that the rating is compared with: the integer part,
  a point, and \<open>0\<close> or \<open>5\<close>.
\<close>

definition render_halves :: "nat \<Rightarrow> ustring" where
  "render_halves n = decimal (n div 2) @ [46, if even n then 48 else 53]"

text \<open>
  An installation for the worked examples. The examples stay inside the part of each
  library function that is defined above, so that its answers are never consulted; it
  rejects what it is asked.
\<close>

definition example_lib :: pylib where
  "example_lib =
     \<lparr>lib_int_digits = (\<lambda>b. None),
      lib_int_message = (\<lambda>s. ustr ''invalid literal for int()''),
      lib_float_repr = (\<lambda>f. ustr ''nan''),
      lib_float_of_str = (\<lambda>s. Inl s),
      lib_urljoin = (\<lambda>b u. Inl (ValueError (ustr ''Invalid URL''))),
      lib_fromisoformat = (\<lambda>s. None),
      lib_year = decimal,
      lib_json_loads = (\<lambda>s. Inl (JSONDecodeError (ustr ''Expecting value'')))\<rparr>"

text \<open>The same installation with a decoder that reads one text as one value.\<close>

definition decoding :: "ustring \<Rightarrow> json \<Rightarrow> pylib" where
  "decoding content j =
     example_lib\<lparr>lib_json_loads :=
       (\<lambda>s. if s = content then Inr j else Inl (JSONDecodeError (ustr ''Expecting value'')))\<rparr>"

text \<open>Pieces of a review page: \<open>element n c ch\<close> is \<open><n class="c">ch</n>\<close>.\<close>

definition element :: "string \<Rightarrow> string \<Rightarrow> node list \<Rightarrow> node" where
  "element n c ch = Tag (ustr n) [ustr c] [] ch"

definition document :: "node list \<Rightarrow> node" where
  "document ch = Tag (ustr ''[document]'') [] [] ch"

definition attribution :: "node list \<Rightarrow> node" where
  "attribution ch = element ''div'' ''attribution-block'' ch"

definition rating_span :: "ustring list \<Rightarrow> ustring \<Rightarrow> node" where
  "rating_span cs text = Tag (ustr ''span'') (ustr ''rating'' # cs) [] [NavigableString text]"

text \<open>
  A review body with the spoiler marker, a visible paragraph and a hidden section of one
  paragraph; a review body without the marker; a date container; a profile link.
\<close>

definition p_tag :: "ustring \<Rightarrow> node" where
  "p_tag text = Tag (ustr ''p'') [] [] [NavigableString text]"

definition spoiler_body :: "ustring \<Rightarrow> ustring \<Rightarrow> node" where
  "spoiler_body visible hidden =
     element ''div'' ''body-text''
       [element ''p'' ''contains-spoilers'' [NavigableString (ustr ''This review may contain spoilers.'')],
        p_tag visible,
        element ''div'' ''hidden-spoilers'' [p_tag hidden]]"

definition marker_only_body :: "ustring \<Rightarrow> node" where
  "marker_only_body visible =
     element ''div'' ''body-text''
       [element ''p'' ''contains-spoilers'' [NavigableString (ustr ''This review may contain spoilers.'')],
        p_tag visible]"

definition plain_body :: "ustring list \<Rightarrow> node" where
  "plain_body texts = element ''div'' ''body-text'' (map p_tag texts)"

definition date_span :: "node list \<Rightarrow> node" where
  "date_span ch = element ''span'' ''_nobr'' ch"

definition time_element :: "(ustring \<times> ustring) list \<Rightarrow> ustring \<Rightarrow> node" where
  "time_element as text = Tag (ustr ''time'') [] as [NavigableString text]"

definition avatar_link :: "(ustring \<times> ustring) list \<Rightarrow> node list \<Rightarrow> node" where
  "avatar_link as ch = Tag (ustr ''a'') [ustr ''avatar''] as ch"

definition image :: "(ustring \<times> ustring) list \<Rightarrow> node" where
  "image as = Tag (ustr ''img'') [] as []"

text \<open>A review block: a profile link, and the content with an attribution block and a body.\<close>

definition review_block :: "node \<Rightarrow> node list \<Rightarrow> node \<Rightarrow> node" where
  "review_block avatar attribution_children body =
     element ''li'' ''film-detail''
       [avatar, element ''div'' ''film-detail-content'' [attribution attribution_children, body]]"

text \<open>
  Payloads: \<open>best_payload c entries\<close> is \<open>{"best": {c: entries}}\<close>, and a service with
  every field at its default.
\<close>

definition best_payload :: "ustring \<Rightarrow> json list \<Rightarrow> json" where
  "best_payload category entries = JObject [(ustr ''best'', JObject [(category, JArray entries)])]"

definition default_service :: StreamingService where
  "default_service =
     \<lparr>name = JString [], icon = JString [], locale_code = JString [], viewUrl = JString [],
      format = JString [], type = JString [], price = None, currency = JString []\<rparr>"

definition rent_zero_text :: ustring where
  \<open>rent_zero_text = ustr ''{"best":{"rent":[{"name":"N","price":0}]}}''\<close>

definition rent_negative_text :: ustring where
  \<open>rent_negative_text = ustr ''{"best":{"rent":[{"name":"N","price":-5}]}}''\<close>

definition two_streams_text :: ustring where
  \<open>two_streams_text = ustr ''{"best":{"stream":[{"name":"A","price":3},{"name":"B"}]}}''\<close>

section \<open>Properties of the library layer\<close>

lemmas eval_defs =
  ustr_def element_def document_def attribution_def rating_span_def
  find_tag_def find_all_def matches_def strip_def strip_chars_def is_space_def
  startswith_def render_halves_def decimal.simps

lemma bit_length_le: "bit_length n \<le> k \<longleftrightarrow> n < 2 ^ k"
proof (induction n arbitrary: k rule: bit_length.induct)
  case (1 n)
  show ?case
  proof (cases "n = 0")
    case True
    then show ?thesis by (simp add: bit_length.simps)
  next
    case False
    show ?thesis
    proof (cases k)
      case 0
      with False show ?thesis by (simp add: bit_length.simps)
    next
      case (Suc j)
      have "bit_length n \<le> Suc j \<longleftrightarrow> bit_length (n div 2) \<le> j"
        using False by (subst bit_length.simps) simp
      also have "\<dots> \<longleftrightarrow> n div 2 < 2 ^ j" using 1 False by simp
      also have "\<dots> \<longleftrightarrow> n < 2 ^ Suc j" by auto
      finally show ?thesis using Suc by simp
    qed
  qed
qed

lemma decimal_digits: "list_all is_digit (decimal n)"
proof (induction n rule: decimal.induct)
  case (1 n)
  show ?case
  proof (cases "n < 10")
    case True
    then show ?thesis by (subst decimal.simps) (simp add: is_digit_def)
  next
    case False
    have "n mod 10 < 10" by simp
    then have "is_digit (48 + n mod 10)" unfolding is_digit_def by linarith
    with False 1 show ?thesis by (subst decimal.simps) simp
  qed
qed

lemma decimal_not_Nil: "decimal n \<noteq> []"
  by (subst decimal.simps) simp

lemma digits_value_snoc: "digits_value (s @ [c]) = 10 * digits_value s + (c - 48)"
  by (simp add: digits_value_def)

lemma digits_value_decimal: "digits_value (decimal n) = n"
proof (induction n rule: decimal.induct)
  case (1 n)
  show ?case
  proof (cases "n < 10")
    case True
    then show ?thesis by (subst decimal.simps) (simp add: digits_value_def)
  next
    case False
    with 1 have "digits_value (decimal (n div 10)) = n div 10" by simp
    with False show ?thesis
      by (subst decimal.simps) (simp add: digits_value_snoc)
  qed
qed

lemma length_decimal: "n < 10 ^ k \<Longrightarrow> 0 < k \<Longrightarrow> length (decimal n) \<le> k"
proof (induction n arbitrary: k rule: decimal.induct)
  case (1 n)
  show ?case
  proof (cases "n < 10")
    case True
    with 1(3) show ?thesis by (subst decimal.simps) simp
  next
    case False
    obtain j where k: "k = Suc j" using 1(3) by (cases k) auto
    have j: "0 < j" using False 1(2) k by (cases j) auto
    have "n div 10 < 10 ^ j" using 1(2) k by (simp add: less_mult_imp_div_less mult.commute)
    with 1(1) False j have "length (decimal (n div 10)) \<le> j" by simp
    with False k show ?thesis by (subst decimal.simps) simp
  qed
qed

lemma length_decimal_53: "n < 2 ^ 53 \<Longrightarrow> length (decimal n) \<le> 4300"
proof -
  assume "n < 2 ^ 53"
  then have "n < 10 ^ 16" by simp
  then have "length (decimal n) \<le> 16" by (rule length_decimal) simp
  then show ?thesis by simp
qed

lemma is_digit_not_space: "is_digit c \<Longrightarrow> \<not> int_space c"
  by (auto simp: is_digit_def int_space_def is_space_def)

lemma strip_chars_id:
  "s \<noteq> [] \<Longrightarrow> \<not> P (hd s) \<Longrightarrow> \<not> P (last s) \<Longrightarrow> strip_chars P s = s"
proof -
  assume s: "s \<noteq> []" and h: "\<not> P (hd s)" and l: "\<not> P (last s)"
  from s h have "dropWhile P s = s" by (cases s) auto
  moreover from s l have "dropWhile P (rev s) = rev s"
    by (cases "rev s") (auto simp: last_rev [symmetric] hd_rev)
  ultimately show ?thesis by (simp add: strip_chars_def)
qed

lemma list_all_hd_last: "list_all P s \<Longrightarrow> s \<noteq> [] \<Longrightarrow> P (hd s) \<and> P (last s)"
  by (cases s) (auto simp: list_all_iff)

lemma py_int_digits:
  assumes "s \<noteq> []" "list_all is_digit s" "length s \<le> 4300"
  shows "py_int L s = Inr (int (digits_value s))"
proof -
  from assms have hl: "is_digit (hd s)" "is_digit (last s)"
    using list_all_hd_last by blast+
  then have st: "strip_chars int_space s = s"
    using assms(1) by (intro strip_chars_id) (auto dest: is_digit_not_space)
  from assms(1) hl(1) have "take 1 s \<noteq> [45]" "take 1 s \<noteq> [43]"
    by (cases s; auto simp: is_digit_def)+
  with st assms show ?thesis
    by (simp add: py_int_def int_digits_def Let_def)
qed

lemma py_int_decimal: "n < 2 ^ 53 \<Longrightarrow> py_int L (decimal n) = Inr (int n)"
  using py_int_digits [of "decimal n" L]
  by (simp add: decimal_not_Nil decimal_digits length_decimal_53 digits_value_decimal)

lemma split_no_sep: "sep \<notin> set s \<Longrightarrow> split sep s = [s]"
  by (induction s) auto

lemma split_append_sep:
  "sep \<notin> set p \<Longrightarrow> split sep (p @ sep # s) = p # split sep s"
  by (induction p) auto

lemma decimal_no_hyphen: "45 \<notin> set (decimal n)"
proof
  assume "45 \<in> set (decimal n)"
  with decimal_digits [of n] have "is_digit 45" by (auto simp: list_all_iff)
  then show False by (simp add: is_digit_def)
qed

lemma rated_token_field:
  "item (split 45 (ustr ''rated-'' @ decimal n)) (Suc 0) = Inr (decimal n)"
proof -
  have "ustr ''rated-'' = ustr ''rated'' @ [45]" by (simp add: ustr_def)
  moreover have "45 \<notin> set (ustr ''rated'')" by (simp add: ustr_def)
  ultimately have "split 45 (ustr ''rated-'' @ decimal n) = ustr ''rated'' # split 45 (decimal n)"
    using split_append_sep [of 45 "ustr ''rated''" "decimal n"] by simp
  then show ?thesis
    by (simp add: split_no_sep decimal_no_hyphen item_def)
qed

lemma round53_small: "n < 2 ^ 53 \<Longrightarrow> round53 n = (n, 0)"
  by (simp add: round53_def bit_length_le)

lemma true_div2_small: "n < 2 ^ 53 \<Longrightarrow> true_div2 (int n) = Inr (Finite False n (- 1))"
proof -
  assume n: "n < 2 ^ 53"
  then have "bit_length n \<le> 53" by (simp add: bit_length_le)
  with n show ?thesis by (simp add: true_div2_def round53_small)
qed

lemma float_str_halves:
  "n < 2 ^ 53 \<Longrightarrow> float_str L (Finite False n (- 1)) = render_halves n"
  by (simp add: float_str_def render_halves_def bit_length_le)

lemma float_str_whole:
  "c < 2 ^ 52 \<Longrightarrow> float_str L (Finite False c 0) = render_halves (2 * c)"
  by (simp add: float_str_def render_halves_def bit_length_le)

lemma float_of_int_small: "c < 2 ^ 53 \<Longrightarrow> float_of_int (int c) = Inr (Finite False c 0)"
proof -
  assume c: "c < 2 ^ 53"
  then have "bit_length c \<le> 53" by (simp add: bit_length_le)
  with c show ?thesis by (simp add: float_of_int_def round53_small)
qed

lemma int_plus_half_small:
  "c < 2 ^ 52 \<Longrightarrow>
   int_plus_half c h = Inr (if h then Finite False (2 * c + 1) (- 1) else Finite False c 0)"
proof -
  assume c: "c < 2 ^ 52"
  then have "c < 2 ^ 53" by simp
  with c show ?thesis
    by (simp add: int_plus_half_def float_of_int_small bit_length_le)
qed


section \<open>The review parser: claims\<close>

subsection \<open>C1: a block without attribution block\<close>

text \<open>
  C1 (the parse never raises; a missing sub-element degrades to its default). The code
  does not keep this: for the page
  \<open><li class="film-detail"><div class="film-detail-content"></div></li>\<close>, a review block
  whose content has no attribution block, \<open>_extract_review_date\<close> calls \<open>find\<close> on \<open>None\<close>
  and \<open>extract_reviews\<close> ends with an \<open>AttributeError\<close>, whatever the installation.
\<close>

theorem extract_reviews_missing_attribution_block:
  "extract_reviews L
     (document [element ''li'' ''film-detail'' [element ''div'' ''film-detail-content'' []]]) =
   Inl AttributeError"
  by (simp add: extract_reviews_def extract_review_def extract_user_image_def
      extract_spoiler_text_def extract_review_date_def eval_defs)

subsection \<open>C3: the rating\<close>

text \<open>
  C3, as stated, fails: a rating indicator without a \<open>rated-N\<close> token and without text
  has no star glyph, so that the count rule would give \<open>0.0\<close>; the code returns \<open>None\<close>.
\<close>

theorem extract_rating_empty_indicator:
  "find_tag (attribution [rating_span [] []]) (ustr ''span'') (Some (ustr ''rating'')) =
     Some (rating_span [] []) \<and>
   filter (\<lambda>c. startswith c (ustr ''rated-'')) (classes (rating_span [] [])) = [] \<and>
   count_list (get_text (rating_span [] [])) 9733 = 0 \<and>
   extract_rating example_lib (Some (attribution [rating_span [] []])) = Inr None"
  by (simp add: extract_rating_def eval_defs)

text \<open>
  C3, amended. In an attribution block: without a rating indicator the rating is \<open>None\<close>;
  when the first class token of the indicator that starts with \<open>rated-\<close> is \<open>rated-N\<close>, the
  rating is \<open>N / 2\<close> as a decimal string (for \<open>N\<close> below \<open>2^53\<close>, where the quotient is
  exact); when no class token of the indicator starts with \<open>rated-\<close>, the rating is \<open>None\<close>
  if the text of the indicator is empty once trimmed, and otherwise the number of full
  stars (U+2605, fewer than \<open>2^52\<close>), plus one half when the glyph U+00BD occurs, as a
  decimal string. An indicator with a token that starts with \<open>rated-\<close> and is not of the
  form \<open>rated-N\<close> is in none of these cases.
\<close>

theorem extract_rating_cases:
  "(find_tag ab (ustr ''span'') (Some (ustr ''rating'')) = None \<longrightarrow>
      extract_rating L (Some ab) = Inr None) \<and>
   (\<forall>sp n rest.
      find_tag ab (ustr ''span'') (Some (ustr ''rating'')) = Some sp \<and>
      filter (\<lambda>c. startswith c (ustr ''rated-'')) (classes sp) = (ustr ''rated-'' @ decimal n) # rest \<and>
      n < 2 ^ 53 \<longrightarrow>
      extract_rating L (Some ab) = Inr (Some (render_halves n))) \<and>
   (\<forall>sp.
      find_tag ab (ustr ''span'') (Some (ustr ''rating'')) = Some sp \<and>
      filter (\<lambda>c. startswith c (ustr ''rated-'')) (classes sp) = [] \<and>
      strip (get_text sp) = [] \<longrightarrow>
      extract_rating L (Some ab) = Inr None) \<and>
   (\<forall>sp.
      find_tag ab (ustr ''span'') (Some (ustr ''rating'')) = Some sp \<and>
      filter (\<lambda>c. startswith c (ustr ''rated-'')) (classes sp) = [] \<and>
      strip (get_text sp) \<noteq> [] \<and>
      count_list (strip (get_text sp)) 9733 < 2 ^ 52 \<longrightarrow>
      extract_rating L (Some ab) =
        Inr (Some (render_halves (2 * count_list (strip (get_text sp)) 9733 +
                                  (if 189 \<in> set (strip (get_text sp)) then 1 else 0)))))"
proof (intro conjI allI impI)
  assume "find_tag ab (ustr ''span'') (Some (ustr ''rating'')) = None"
  then show "extract_rating L (Some ab) = Inr None"
    by (simp add: extract_rating_def)
next
  fix sp n rest
  assume h: "find_tag ab (ustr ''span'') (Some (ustr ''rating'')) = Some sp \<and>
      filter (\<lambda>c. startswith c (ustr ''rated-'')) (classes sp) = (ustr ''rated-'' @ decimal n) # rest \<and>
      n < 2 ^ 53"
  then show "extract_rating L (Some ab) = Inr (Some (render_halves n))"
    by (simp add: extract_rating_def rated_token_field py_int_decimal true_div2_small
        float_str_halves)
next
  fix sp
  assume "find_tag ab (ustr ''span'') (Some (ustr ''rating'')) = Some sp \<and>
      filter (\<lambda>c. startswith c (ustr ''rated-'')) (classes sp) = [] \<and>
      strip (get_text sp) = []"
  then show "extract_rating L (Some ab) = Inr None"
    by (simp add: extract_rating_def)
next
  fix sp
  assume h: "find_tag ab (ustr ''span'') (Some (ustr ''rating'')) = Some sp \<and>
      filter (\<lambda>c. startswith c (ustr ''rated-'')) (classes sp) = [] \<and>
      strip (get_text sp) \<noteq> [] \<and>
      count_list (strip (get_text sp)) 9733 < 2 ^ 52"
  then show "extract_rating L (Some ab) =
        Inr (Some (render_halves (2 * count_list (strip (get_text sp)) 9733 +
                                  (if 189 \<in> set (strip (get_text sp)) then 1 else 0))))"
    by (simp add: extract_rating_def Let_def int_plus_half_small float_str_halves float_str_whole)
qed

text \<open>
  The four cases of C3 on inputs: no indicator, the token \<open>rated-7\<close>, an indicator holding
  one space, and three stars and a half.
\<close>

theorem extract_rating_cases_witness:
  "extract_rating example_lib (Some (attribution [])) = Inr None \<and>
   extract_rating example_lib (Some (attribution [rating_span [ustr ''rated-7''] []])) =
     Inr (Some (ustr ''3.5'')) \<and>
   extract_rating example_lib (Some (attribution [rating_span [] [32]])) = Inr None \<and>
   extract_rating example_lib (Some (attribution [rating_span [] [9733, 9733, 9733, 189]])) =
     Inr (Some (ustr ''3.5''))"
proof -
  let ?L = example_lib
  note c = extract_rating_cases [of "attribution []" ?L]
  have 1: "extract_rating ?L (Some (attribution [])) = Inr None"
    by (rule c [THEN conjunct1, rule_format]) (simp add: eval_defs)
  let ?sp = "rating_span [ustr ''rated-7''] []"
  note c = extract_rating_cases [of "attribution [?sp]" ?L]
  have "(7::nat) < 2 ^ 53" by simp
  moreover have "find_tag (attribution [?sp]) (ustr ''span'') (Some (ustr ''rating'')) = Some ?sp"
    by (simp add: eval_defs)
  moreover have "filter (\<lambda>c. startswith c (ustr ''rated-'')) (classes ?sp) =
                   (ustr ''rated-'' @ decimal 7) # []"
    by (simp add: eval_defs)
  ultimately have "extract_rating ?L (Some (attribution [?sp])) = Inr (Some (render_halves 7))"
    using c [THEN conjunct2, THEN conjunct1, rule_format, of ?sp 7 "[]"] by blast
  moreover have "render_halves 7 = ustr ''3.5''" by (simp add: eval_defs)
  ultimately have 2: "extract_rating ?L (Some (attribution [?sp])) = Inr (Some (ustr ''3.5''))"
    by simp
  let ?sp = "rating_span [] [32]"
  note c = extract_rating_cases [of "attribution [?sp]" ?L]
  have 3: "extract_rating ?L (Some (attribution [?sp])) = Inr None"
    by (rule c [THEN conjunct2, THEN conjunct2, THEN conjunct1, rule_format, of ?sp])
       (simp add: eval_defs)
  let ?sp = "rating_span [] [9733, 9733, 9733, 189]"
  note c = extract_rating_cases [of "attribution [?sp]" ?L]
  have s: "strip (get_text ?sp) = [9733, 9733, 9733, 189]" by (simp add: eval_defs)
  have "count_list (strip (get_text ?sp)) 9733 < 2 ^ 52" by (simp add: s)
  moreover have "find_tag (attribution [?sp]) (ustr ''span'') (Some (ustr ''rating'')) = Some ?sp"
    by (simp add: eval_defs)
  moreover have "filter (\<lambda>c. startswith c (ustr ''rated-'')) (classes ?sp) = []"
    by (simp add: eval_defs)
  moreover have "strip (get_text ?sp) \<noteq> []" by (simp add: s)
  ultimately have "extract_rating ?L (Some (attribution [?sp])) =
          Inr (Some (render_halves (2 * count_list (strip (get_text ?sp)) 9733 +
                                    (if 189 \<in> set (strip (get_text ?sp)) then 1 else 0))))"
    using c [THEN conjunct2, THEN conjunct2, THEN conjunct2, rule_format, of ?sp] by blast
  moreover have "render_halves (2 * count_list [9733, 9733, 9733, 189::nat] 9733 +
                   (if 189 \<in> set [9733, 9733, 9733, 189::nat] then 1 else 0)) = ustr ''3.5''"
    by (simp add: eval_defs)
  ultimately have 4: "extract_rating ?L (Some (attribution [?sp])) = Inr (Some (ustr ''3.5''))"
    by (simp add: s)
  from 1 2 3 4 show ?thesis by blast
qed

subsection \<open>What a review is made of\<close>

lemmas eval_defs2 = p_tag_def spoiler_body_def marker_only_body_def plain_body_def
  date_span_def time_element_def avatar_link_def image_def review_block_def

lemma extract_review_Some:
  assumes "extract_review L el = Inr (Some r)"
  shows "\<exists>cd. find_tag el (ustr ''div'') (Some (ustr ''film-detail-content'')) = Some cd \<and>
     extract_user_image L (find_tag el (ustr ''a'') (Some (ustr ''avatar''))) = Inr (user_image r) \<and>
     extract_review_date L (find_tag cd (ustr ''div'') (Some (ustr ''attribution-block''))) =
       Inr (review_date r) \<and>
     extract_rating L (find_tag cd (ustr ''div'') (Some (ustr ''attribution-block''))) =
       Inr (rating r) \<and>
     extract_likes_count L cd = Inr (likes_count r) \<and>
     extract_spoiler_text (find_tag cd (ustr ''div'') (Some (ustr ''body-text''))) =
       (review_text r, contains_spoilers r)"
  using assms unfolding extract_review_def Let_def
  by (auto split: sum.splits option.splits prod.splits)

lemma extract_loop_member:
  "extract_loop L els = Inr rs \<Longrightarrow> r \<in> set rs \<Longrightarrow>
   \<exists>el \<in> set els. extract_review L el = Inr (Some r)"
proof (induction els arbitrary: rs)
  case Nil
  then show ?case by simp
next
  case (Cons el els)
  then show ?case
    by (auto split: sum.splits option.splits)
qed

lemma clean_review_text_Nil: "clean_review_text [] = []"
  by (simp add: clean_review_text_def replace_def strip_def strip_chars_def ustr_def)

subsection \<open>C10 and C4: the text and the spoiler flag\<close>

text \<open>
  C10. A body with the spoiler marker and no hidden section: \<open>_extract_spoiler_text\<close>
  returns the empty text and the flag set, and so does every review extracted from a block
  with that body. The visible paragraphs are not read.
\<close>

theorem spoiler_marker_without_hidden_section:
  assumes "find_tag b (ustr ''p'') (Some (ustr ''contains-spoilers'')) = Some sp"
    and "find_tag b (ustr ''div'') (Some (ustr ''hidden-spoilers'')) = None"
  shows "extract_spoiler_text (Some b) = ([], True) \<and>
    (\<forall>el cd r. extract_review L el = Inr (Some r) \<and>
       find_tag el (ustr ''div'') (Some (ustr ''film-detail-content'')) = Some cd \<and>
       find_tag cd (ustr ''div'') (Some (ustr ''body-text'')) = Some b \<longrightarrow>
       contains_spoilers r \<and> review_text r = [])"
proof -
  have a: "extract_spoiler_text (Some b) = ([], True)"
    using assms by (simp add: extract_spoiler_text_def clean_review_text_Nil)
  show ?thesis
  proof (intro conjI allI impI)
    show "extract_spoiler_text (Some b) = ([], True)" by (rule a)
  next
    fix el cd r
    assume h: "extract_review L el = Inr (Some r) \<and>
       find_tag el (ustr ''div'') (Some (ustr ''film-detail-content'')) = Some cd \<and>
       find_tag cd (ustr ''div'') (Some (ustr ''body-text'')) = Some b"
    with extract_review_Some [of L el r] a
    have "(review_text r, contains_spoilers r) = ([], True)" by auto
    then show "contains_spoilers r" and "review_text r = []" by simp_all
  qed
qed


lemmas review_defs = extract_reviews_def extract_review_def extract_user_image_def
  extract_spoiler_text_def extract_review_date_def extract_rating_def
  extract_likes_count_def clean_review_text_def attr_def item_def replace_def

text \<open>
  C10 on a block whose body has the marker and one visible paragraph.
\<close>

theorem spoiler_marker_without_hidden_section_witness:
  "find_tag (marker_only_body (ustr ''Great film'')) (ustr ''p'') (Some (ustr ''contains-spoilers'')) \<noteq> None \<and>
   find_tag (marker_only_body (ustr ''Great film'')) (ustr ''div'') (Some (ustr ''hidden-spoilers'')) = None \<and>
   extract_review example_lib
     (review_block (avatar_link [(ustr ''href'', ustr ''/alice/'')] []) []
        (marker_only_body (ustr ''Great film''))) =
   Inr (Some \<lparr>user = ustr ''alice'', user_image = [], review_date = [], review_text = [],
              rating = None, likes_count = None, contains_spoilers = True\<rparr>)"
proof -
  let ?b = "marker_only_body (ustr ''Great film'')"
  let ?el = "review_block (avatar_link [(ustr ''href'', ustr ''/alice/'')] []) [] ?b"
  let ?sp = "element ''p'' ''contains-spoilers'' [NavigableString (ustr ''This review may contain spoilers.'')]"
  have m: "find_tag ?b (ustr ''p'') (Some (ustr ''contains-spoilers'')) = Some ?sp"
    by (simp add: eval_defs eval_defs2)
  have h: "find_tag ?b (ustr ''div'') (Some (ustr ''hidden-spoilers'')) = None"
    by (simp add: eval_defs eval_defs2)
  have s: "extract_spoiler_text (Some ?b) = ([], True)"
    using spoiler_marker_without_hidden_section [OF m h, of example_lib] by blast
  have cd: "find_tag ?el (ustr ''div'') (Some (ustr ''film-detail-content'')) =
              Some (element ''div'' ''film-detail-content'' [attribution [], ?b])"
    by (simp add: eval_defs eval_defs2)
  have b: "find_tag (element ''div'' ''film-detail-content'' [attribution [], ?b])
             (ustr ''div'') (Some (ustr ''body-text'')) = Some ?b"
    by (simp add: eval_defs eval_defs2)
  have "extract_review example_lib ?el =
     Inr (Some \<lparr>user = ustr ''alice'', user_image = [], review_date = [],
                review_text = fst (extract_spoiler_text (Some ?b)),
                rating = None, likes_count = None,
                contains_spoilers = snd (extract_spoiler_text (Some ?b))\<rparr>)"
    unfolding extract_review_def cd b
    by (simp add: extract_user_image_def extract_review_date_def extract_rating_def
        extract_likes_count_def attr_def eval_defs eval_defs2 split_beta Let_def)
  with s m h show ?thesis by simp
qed

text \<open>
  C4, as stated, fails: the text is not only joined, collapsed and trimmed. For a hidden
  paragraph whose text is the four characters \<open><br>\<close> the review text is a newline.
\<close>

theorem spoiler_text_line_break:
  "extract_spoiler_text (Some (spoiler_body (ustr ''Seen it twice.'') (ustr ''<br>''))) =
     ([10], True) \<and>
   find_tag (spoiler_body (ustr ''Seen it twice.'') (ustr ''<br>'')) (ustr ''div'')
     (Some (ustr ''hidden-spoilers'')) =
     Some (element ''div'' ''hidden-spoilers'' [p_tag (ustr ''<br>'')]) \<and>
   strip (collapse_ws (join_space (map get_text
     (find_all (element ''div'' ''hidden-spoilers'' [p_tag (ustr ''<br>'')]) (ustr ''p'') None)))) =
     ustr ''<br>''"
  by (simp add: review_defs eval_defs eval_defs2)

text \<open>
  C4, amended. For a review extracted from a block: without a body the text is empty and
  the flag is false; with the marker and a hidden section the flag is true and the text
  is that of the paragraphs of the hidden section alone; without the marker the flag is
  false and the text is that of all paragraphs of the body. In both cases the
  paragraphs are joined with single spaces, whitespace is collapsed and trimmed, and then
  every \<open><br>\<close> in the text becomes a newline.
\<close>

theorem extract_review_text_cases:
  assumes "extract_review L el = Inr (Some r)"
    and "find_tag el (ustr ''div'') (Some (ustr ''film-detail-content'')) = Some cd"
  shows
   "(find_tag cd (ustr ''div'') (Some (ustr ''body-text'')) = None \<longrightarrow>
       review_text r = [] \<and> \<not> contains_spoilers r) \<and>
    (\<forall>b sp h.
       find_tag cd (ustr ''div'') (Some (ustr ''body-text'')) = Some b \<and>
       find_tag b (ustr ''p'') (Some (ustr ''contains-spoilers'')) = Some sp \<and>
       find_tag b (ustr ''div'') (Some (ustr ''hidden-spoilers'')) = Some h \<longrightarrow>
       contains_spoilers r \<and>
       review_text r =
         replace (strip (collapse_ws (join_space (map get_text (find_all h (ustr ''p'') None)))))
           (ustr ''<br>'') [10]) \<and>
    (\<forall>b.
       find_tag cd (ustr ''div'') (Some (ustr ''body-text'')) = Some b \<and>
       find_tag b (ustr ''p'') (Some (ustr ''contains-spoilers'')) = None \<longrightarrow>
       \<not> contains_spoilers r \<and>
       review_text r =
         replace (strip (collapse_ws (join_space (map get_text (find_all b (ustr ''p'') None)))))
           (ustr ''<br>'') [10])"
proof -
  from extract_review_Some [OF assms(1)] assms(2)
  have e: "extract_spoiler_text (find_tag cd (ustr ''div'') (Some (ustr ''body-text''))) =
             (review_text r, contains_spoilers r)"
    by auto
  show ?thesis
    using e by (auto simp: extract_spoiler_text_def clean_review_text_def)
qed

lemmas block_defs = review_defs eval_defs eval_defs2 Let_def split_beta

text \<open>
  C4 on three blocks: a hidden section next to a visible paragraph, two plain
  paragraphs, and no body.
\<close>

theorem extract_review_text_cases_witness:
  "extract_review example_lib
     (review_block (avatar_link [(ustr ''href'', ustr ''/alice/'')] []) []
        (spoiler_body (ustr ''Seen it twice.'') [32, 84, 104, 101, 10, 32, 101, 110, 100, 46, 32])) =
   Inr (Some \<lparr>user = ustr ''alice'', user_image = [], review_date = [],
              review_text = ustr ''The end.'',
              rating = None, likes_count = None, contains_spoilers = True\<rparr>) \<and>
   extract_review example_lib
     (review_block (avatar_link [(ustr ''href'', ustr ''/alice/'')] []) []
        (plain_body [ustr ''A  fine'', ustr ''film.''])) =
   Inr (Some \<lparr>user = ustr ''alice'', user_image = [], review_date = [],
              review_text = ustr ''A fine film.'',
              rating = None, likes_count = None, contains_spoilers = False\<rparr>) \<and>
   extract_review example_lib
     (review_block (avatar_link [(ustr ''href'', ustr ''/alice/'')] []) []
        (NavigableString [])) =
   Inr (Some \<lparr>user = ustr ''alice'', user_image = [], review_date = [],
              review_text = [],
              rating = None, likes_count = None, contains_spoilers = False\<rparr>)"
proof -
  let ?L = example_lib
  let ?av = "avatar_link [(ustr ''href'', ustr ''/alice/'')] []"
  let ?R = "\<lambda>text sp. \<lparr>user = ustr ''alice'', user_image = [], review_date = [],
              review_text = text, rating = None, likes_count = None, contains_spoilers = sp\<rparr>"
  \<comment> \<open>a body with the marker and a hidden section\<close>
  let ?b = "spoiler_body (ustr ''Seen it twice.'') [32, 84, 104, 101, 10, 32, 101, 110, 100, 46, 32]"
  let ?h = "element ''div'' ''hidden-spoilers'' [p_tag [32, 84, 104, 101, 10, 32, 101, 110, 100, 46, 32]]"
  let ?m = "element ''p'' ''contains-spoilers'' [NavigableString (ustr ''This review may contain spoilers.'')]"
  obtain r where r: "extract_review ?L (review_block ?av [] ?b) = Inr (Some r)"
    and r': "r = ?R (review_text r) (contains_spoilers r)"
    by (simp add: block_defs)
  have cd: "find_tag (review_block ?av [] ?b) (ustr ''div'') (Some (ustr ''film-detail-content'')) =
              Some (element ''div'' ''film-detail-content'' [attribution [], ?b])"
    by (simp add: eval_defs eval_defs2)
  have "find_tag (element ''div'' ''film-detail-content'' [attribution [], ?b]) (ustr ''div'')
          (Some (ustr ''body-text'')) = Some ?b \<and>
        find_tag ?b (ustr ''p'') (Some (ustr ''contains-spoilers'')) = Some ?m \<and>
        find_tag ?b (ustr ''div'') (Some (ustr ''hidden-spoilers'')) = Some ?h"
    by (simp add: eval_defs eval_defs2)
  with extract_review_text_cases [OF r cd]
  have "contains_spoilers r \<and>
        review_text r =
          replace (strip (collapse_ws (join_space (map get_text (find_all ?h (ustr ''p'') None)))))
            (ustr ''<br>'') [10]"
    by blast
  moreover have "replace (strip (collapse_ws (join_space (map get_text (find_all ?h (ustr ''p'') None)))))
            (ustr ''<br>'') [10] = ustr ''The end.''"
    by (simp add: block_defs)
  ultimately have 1: "extract_review ?L (review_block ?av [] ?b) = Inr (Some (?R (ustr ''The end.'') True))"
    using r r' by simp
  \<comment> \<open>a body without the marker\<close>
  let ?b = "plain_body [ustr ''A  fine'', ustr ''film.'']"
  obtain r where r: "extract_review ?L (review_block ?av [] ?b) = Inr (Some r)"
    and r': "r = ?R (review_text r) (contains_spoilers r)"
    by (simp add: block_defs)
  have cd: "find_tag (review_block ?av [] ?b) (ustr ''div'') (Some (ustr ''film-detail-content'')) =
              Some (element ''div'' ''film-detail-content'' [attribution [], ?b])"
    by (simp add: eval_defs eval_defs2)
  have "find_tag (element ''div'' ''film-detail-content'' [attribution [], ?b]) (ustr ''div'')
          (Some (ustr ''body-text'')) = Some ?b \<and>
        find_tag ?b (ustr ''p'') (Some (ustr ''contains-spoilers'')) = None"
    by (simp add: eval_defs eval_defs2)
  with extract_review_text_cases [OF r cd]
  have "\<not> contains_spoilers r \<and>
        review_text r =
          replace (strip (collapse_ws (join_space (map get_text (find_all ?b (ustr ''p'') None)))))
            (ustr ''<br>'') [10]"
    by blast
  moreover have "replace (strip (collapse_ws (join_space (map get_text (find_all ?b (ustr ''p'') None)))))
            (ustr ''<br>'') [10] = ustr ''A fine film.''"
    by (simp add: block_defs)
  ultimately have 2: "extract_review ?L (review_block ?av [] ?b) = Inr (Some (?R (ustr ''A fine film.'') False))"
    using r r' by simp
  \<comment> \<open>no body\<close>
  let ?b = "NavigableString []"
  obtain r where r: "extract_review ?L (review_block ?av [] ?b) = Inr (Some r)"
    and r': "r = ?R (review_text r) (contains_spoilers r)"
    by (simp add: block_defs)
  have cd: "find_tag (review_block ?av [] ?b) (ustr ''div'') (Some (ustr ''film-detail-content'')) =
              Some (element ''div'' ''film-detail-content'' [attribution [], ?b])"
    by (simp add: eval_defs eval_defs2)
  have "find_tag (element ''div'' ''film-detail-content'' [attribution [], ?b]) (ustr ''div'')
          (Some (ustr ''body-text'')) = None"
    by (simp add: eval_defs eval_defs2)
  with extract_review_text_cases [OF r cd]
  have "review_text r = [] \<and> \<not> contains_spoilers r"
    by blast
  then have 3: "extract_review ?L (review_block ?av [] ?b) = Inr (Some (?R [] False))"
    using r r' by simp
  from 1 2 3 show ?thesis by blast
qed

subsection \<open>C8: the date\<close>

lemmas date_defs = fromisoformat_def iso_date_def iso_time_def iso_offset_def number_def
  month_of_nat_def is_leap_def is_digit_def digits_value_def strftime_def

text \<open>
  C8 (without date container the date is the empty string). The code does not keep this
  for a block that has no attribution block, and so no date container at all:
  \<open>_extract_review_date\<close> receives \<open>None\<close> and calls \<open>find\<close> on it. For the page
  \<open><li class="film-detail"><a class="avatar" href="/alice/"></a><div
  class="film-detail-content"><div class="body-text"><p>Fine.</p></div></div></li>\<close> the date
  is not extracted as the empty string: the call, and with it \<open>extract_reviews\<close>, ends with
  an \<open>AttributeError\<close>, whatever the installation.
\<close>

theorem extract_review_date_without_attribution_block:
  "find_all
     (element ''li'' ''film-detail''
        [avatar_link [(ustr ''href'', ustr ''/alice/'')] [],
         element ''div'' ''film-detail-content'' [plain_body [ustr ''Fine.'']]])
     (ustr ''span'') (Some (ustr ''_nobr'')) = [] \<and>
   extract_review_date L
     (find_tag (element ''div'' ''film-detail-content'' [plain_body [ustr ''Fine.'']])
        (ustr ''div'') (Some (ustr ''attribution-block''))) = Inl AttributeError \<and>
   extract_reviews L
     (document
        [element ''li'' ''film-detail''
           [avatar_link [(ustr ''href'', ustr ''/alice/'')] [],
            element ''div'' ''film-detail-content'' [plain_body [ustr ''Fine.'']]]]) =
   Inl AttributeError"
  by (simp add: block_defs)

text \<open>
  The date of a block that has an attribution block, where the three cases of C8 hold:
  without a date container the date is empty; when the first \<open>time\<close> element of the
  container has a \<open>datetime\<close> attribute that \<open>fromisoformat\<close> accepts once \<open>Z\<close> is replaced by
  \<open>+00:00\<close>, the date is that day formatted by \<open>%d %b %Y\<close>; when there is no such element
  or attribute, or the attribute is not accepted, the date is the trimmed text of the
  container. A review is extracted only from a block that has an attribution block, and
  its date is the one found there.
\<close>

theorem extract_review_date_cases:
  "(find_tag ab (ustr ''span'') (Some (ustr ''_nobr'')) = None \<longrightarrow>
      extract_review_date L (Some ab) = Inr []) \<and>
   (\<forall>ds t v dt.
      find_tag ab (ustr ''span'') (Some (ustr ''_nobr'')) = Some ds \<and>
      find_tag ds (ustr ''time'') None = Some t \<and>
      map_of (attrs t) (ustr ''datetime'') = Some v \<and>
      fromisoformat L (replace v (ustr ''Z'') (ustr ''+00:00'')) = Some dt \<longrightarrow>
      extract_review_date L (Some ab) = Inr (strftime L dt)) \<and>
   (\<forall>ds.
      find_tag ab (ustr ''span'') (Some (ustr ''_nobr'')) = Some ds \<and>
      (find_tag ds (ustr ''time'') None = None \<or>
       (\<exists>t. find_tag ds (ustr ''time'') None = Some t \<and>
            (map_of (attrs t) (ustr ''datetime'') = None \<or>
             (\<exists>v. map_of (attrs t) (ustr ''datetime'') = Some v \<and>
                  fromisoformat L (replace v (ustr ''Z'') (ustr ''+00:00'')) = None)))) \<longrightarrow>
      extract_review_date L (Some ab) = Inr (strip (get_text ds))) \<and>
   (\<forall>el cd r.
      extract_review L el = Inr (Some r) \<and>
      find_tag el (ustr ''div'') (Some (ustr ''film-detail-content'')) = Some cd \<longrightarrow>
      (\<exists>ab. find_tag cd (ustr ''div'') (Some (ustr ''attribution-block'')) = Some ab \<and>
            extract_review_date L (Some ab) = Inr (review_date r)))"
proof -
  have "\<exists>ab. find_tag cd (ustr ''div'') (Some (ustr ''attribution-block'')) = Some ab \<and>
            extract_review_date L (Some ab) = Inr (review_date r)"
    if "extract_review L el = Inr (Some r)"
      and "find_tag el (ustr ''div'') (Some (ustr ''film-detail-content'')) = Some cd"
    for el cd r
  proof -
    from extract_review_Some [OF that(1)] that(2)
    have d: "extract_review_date L (find_tag cd (ustr ''div'') (Some (ustr ''attribution-block''))) =
            Inr (review_date r)"
      by auto
    then show ?thesis
      by (cases "find_tag cd (ustr ''div'') (Some (ustr ''attribution-block''))")
         (simp_all add: extract_review_date_def)
  qed
  then show ?thesis
    by (auto simp: extract_review_date_def)
qed

text \<open>
  The format of \<open>%d %b %Y\<close> for a year of four digits: two digits, the abbreviation of the
  month, the year.
\<close>

lemma strftime_day_month_year:
  "1000 \<le> year dt \<Longrightarrow> day dt < 100 \<Longrightarrow>
   strftime L dt =
     [48 + day dt div 10, 48 + day dt mod 10, 32] @ month_abbr (month dt) @ 32 # decimal (year dt)"
proof -
  assume y: "1000 \<le> year dt" and d: "day dt < 100"
  then have "day dt div 10 < 10" by simp
  with y show ?thesis
    by (simp add: strftime_def decimal.simps [of "day dt"] decimal.simps [of "day dt div 10"])
qed

text \<open>
  The cases of the date on inputs: no container, the timestamp \<open>2023-10-05T14:30:00Z\<close>, an attribute that is
  no timestamp, a container without \<open>time\<close> element, and a whole block.
\<close>

theorem extract_review_date_cases_witness:
  "extract_review_date example_lib (Some (attribution [])) = Inr [] \<and>
   extract_review_date example_lib
     (Some (attribution
        [date_span [time_element [(ustr ''datetime'', ustr ''2023-10-05T14:30:00Z'')] (ustr ''2 years ago'')]])) =
     Inr (ustr ''05 Oct 2023'') \<and>
   extract_review_date example_lib
     (Some (attribution
        [date_span [time_element [(ustr ''datetime'', ustr ''last week'')] (ustr '' 2 Oct 2023 '')]])) =
     Inr (ustr ''2 Oct 2023'') \<and>
   extract_review_date example_lib
     (Some (attribution [date_span [NavigableString (ustr '' 05 Oct 2023'')]])) =
     Inr (ustr ''05 Oct 2023'') \<and>
   (\<exists>ab. find_tag
           (element ''div'' ''film-detail-content''
              [attribution [date_span [NavigableString (ustr '' 05 Oct 2023'')]], plain_body []])
           (ustr ''div'') (Some (ustr ''attribution-block'')) = Some ab \<and>
         extract_review_date example_lib (Some ab) = Inr (ustr ''05 Oct 2023''))"
proof -
  let ?L = example_lib
  note c = extract_review_date_cases [of "attribution []" ?L]
  have 1: "extract_review_date ?L (Some (attribution [])) = Inr []"
    by (rule c [THEN conjunct1, rule_format]) (simp add: eval_defs eval_defs2)
  \<comment> \<open>a timestamp\<close>
  let ?t = "time_element [(ustr ''datetime'', ustr ''2023-10-05T14:30:00Z'')] (ustr ''2 years ago'')"
  let ?dt = "\<lparr>year = 2023, month = Oct, day = 5\<rparr>"
  note c = extract_review_date_cases [of "attribution [date_span [?t]]" ?L]
  have "find_tag (attribution [date_span [?t]]) (ustr ''span'') (Some (ustr ''_nobr'')) =
          Some (date_span [?t]) \<and>
        find_tag (date_span [?t]) (ustr ''time'') None = Some ?t \<and>
        map_of (attrs ?t) (ustr ''datetime'') = Some (ustr ''2023-10-05T14:30:00Z'')"
    by (simp add: eval_defs eval_defs2)
  moreover have "fromisoformat ?L (replace (ustr ''2023-10-05T14:30:00Z'') (ustr ''Z'') (ustr ''+00:00'')) =
          Some ?dt"
    by (simp add: date_defs replace_def ustr_def)
  ultimately have "extract_review_date ?L (Some (attribution [date_span [?t]])) = Inr (strftime ?L ?dt)"
    using c [THEN conjunct2, THEN conjunct1, rule_format,
             of "date_span [?t]" ?t "ustr ''2023-10-05T14:30:00Z''" ?dt]
    by blast
  moreover have "strftime ?L ?dt = ustr ''05 Oct 2023''"
    by (simp add: date_defs ustr_def decimal.simps)
  ultimately have 2: "extract_review_date ?L (Some (attribution [date_span [?t]])) =
      Inr (ustr ''05 Oct 2023'')"
    by simp
  \<comment> \<open>an attribute that is no timestamp\<close>
  let ?t = "time_element [(ustr ''datetime'', ustr ''last week'')] (ustr '' 2 Oct 2023 '')"
  note c = extract_review_date_cases [of "attribution [date_span [?t]]" ?L]
  have "find_tag (attribution [date_span [?t]]) (ustr ''span'') (Some (ustr ''_nobr'')) =
          Some (date_span [?t]) \<and>
        find_tag (date_span [?t]) (ustr ''time'') None = Some ?t \<and>
        map_of (attrs ?t) (ustr ''datetime'') = Some (ustr ''last week'')"
    by (simp add: eval_defs eval_defs2)
  moreover have "fromisoformat ?L (replace (ustr ''last week'') (ustr ''Z'') (ustr ''+00:00'')) = None"
    by (simp add: date_defs replace_def ustr_def example_lib_def)
  ultimately have "extract_review_date ?L (Some (attribution [date_span [?t]])) =
      Inr (strip (get_text (date_span [?t])))"
    using c [THEN conjunct2, THEN conjunct2, THEN conjunct1, rule_format, of "date_span [?t]"]
    by blast
  moreover have "strip (get_text (date_span [?t])) = ustr ''2 Oct 2023''"
    by (simp add: eval_defs eval_defs2)
  ultimately have 3: "extract_review_date ?L (Some (attribution [date_span [?t]])) =
      Inr (ustr ''2 Oct 2023'')"
    by simp
  \<comment> \<open>no time element\<close>
  let ?ds = "date_span [NavigableString (ustr '' 05 Oct 2023'')]"
  note c = extract_review_date_cases [of "attribution [?ds]" ?L]
  have "find_tag (attribution [?ds]) (ustr ''span'') (Some (ustr ''_nobr'')) = Some ?ds \<and>
        find_tag ?ds (ustr ''time'') None = None"
    by (simp add: eval_defs eval_defs2)
  then have "extract_review_date ?L (Some (attribution [?ds])) = Inr (strip (get_text ?ds))"
    using c [THEN conjunct2, THEN conjunct2, THEN conjunct1, rule_format, of ?ds]
    by blast
  moreover have "strip (get_text ?ds) = ustr ''05 Oct 2023''"
    by (simp add: eval_defs eval_defs2)
  ultimately have 4: "extract_review_date ?L (Some (attribution [?ds])) = Inr (ustr ''05 Oct 2023'')"
    by simp
  \<comment> \<open>a whole block\<close>
  let ?av = "avatar_link [(ustr ''href'', ustr ''/alice/'')] []"
  let ?el = "review_block ?av [?ds] (plain_body [])"
  let ?cd = "element ''div'' ''film-detail-content'' [attribution [?ds], plain_body []]"
  obtain r where r: "extract_review ?L ?el = Inr (Some r)" and d: "review_date r = ustr ''05 Oct 2023''"
    by (simp add: block_defs)
  have cd: "find_tag ?el (ustr ''div'') (Some (ustr ''film-detail-content'')) = Some ?cd"
    by (simp add: eval_defs eval_defs2)
  from r cd d extract_review_date_cases [of "attribution [?ds]" ?L,
      THEN conjunct2, THEN conjunct2, THEN conjunct2, rule_format, of ?el r ?cd]
  have 5: "\<exists>ab. find_tag ?cd (ustr ''div'') (Some (ustr ''attribution-block'')) = Some ab \<and>
         extract_review_date ?L (Some ab) = Inr (ustr ''05 Oct 2023'')"
    by simp
  from 1 2 3 4 5 show ?thesis by blast
qed

subsection \<open>C9: the profile image\<close>

text \<open>
  C9. Without profile link, image or \<open>src\<close> the image URL is empty; a \<open>src\<close> that starts
  with \<open>/\<close> is joined to the base URL, which for a plain path gives the base followed by
  the path; any other \<open>src\<close> is returned as it is. The review of a block carries the
  image URL of its profile link.
\<close>

theorem extract_user_image_cases:
  "extract_user_image L None = Inr [] \<and>
   (find_tag a (ustr ''img'') None = None \<longrightarrow> extract_user_image L (Some a) = Inr []) \<and>
   (\<forall>img.
      find_tag a (ustr ''img'') None = Some img \<and> map_of (attrs img) (ustr ''src'') = None \<longrightarrow>
      extract_user_image L (Some a) = Inr []) \<and>
   (\<forall>img u.
      find_tag a (ustr ''img'') None = Some img \<and> map_of (attrs img) (ustr ''src'') = Some u \<and>
      startswith u (ustr ''/'') \<longrightarrow>
      extract_user_image L (Some a) = urljoin L BASE_URL u \<and>
      (simple_path u \<longrightarrow> extract_user_image L (Some a) = Inr (ustr ''https://letterboxd.com'' @ u))) \<and>
   (\<forall>img u.
      find_tag a (ustr ''img'') None = Some img \<and> map_of (attrs img) (ustr ''src'') = Some u \<and>
      \<not> startswith u (ustr ''/'') \<longrightarrow>
      extract_user_image L (Some a) = Inr u) \<and>
   (\<forall>el r.
      extract_review L el = Inr (Some r) \<longrightarrow>
      extract_user_image L (find_tag el (ustr ''a'') (Some (ustr ''avatar''))) = Inr (user_image r))"
proof -
  have "extract_user_image L (find_tag el (ustr ''a'') (Some (ustr ''avatar''))) = Inr (user_image r)"
    if "extract_review L el = Inr (Some r)" for el r
    using extract_review_Some [OF that] by auto
  then show ?thesis
    by (auto simp: extract_user_image_def urljoin_def BASE_URL_def)
qed

text \<open>
  C9 on inputs: a link without image, an image without \<open>src\<close>, the path
  \<open>/avatar/abc.jpg\<close>, an absolute URL, and a whole block.
\<close>

theorem extract_user_image_cases_witness:
  "extract_user_image example_lib (Some (avatar_link [] [])) = Inr [] \<and>
   extract_user_image example_lib (Some (avatar_link [] [image [(ustr ''alt'', ustr ''alice'')]])) = Inr [] \<and>
   extract_user_image example_lib (Some (avatar_link [] [image [(ustr ''src'', ustr ''/avatar/abc.jpg'')]])) =
     Inr (ustr ''https://letterboxd.com/avatar/abc.jpg'') \<and>
   extract_user_image example_lib
     (Some (avatar_link [] [image [(ustr ''src'', ustr ''https://a.ltrbxd.com/avatar/abc.jpg'')]])) =
     Inr (ustr ''https://a.ltrbxd.com/avatar/abc.jpg'') \<and>
   extract_review example_lib
     (review_block
        (avatar_link [(ustr ''href'', ustr ''/alice/'')] [image [(ustr ''src'', ustr ''/avatar/abc.jpg'')]])
        [] (plain_body [])) =
   Inr (Some \<lparr>user = ustr ''alice'', user_image = ustr ''https://letterboxd.com/avatar/abc.jpg'',
              review_date = [], review_text = [], rating = None, likes_count = None,
              contains_spoilers = False\<rparr>)"
proof -
  let ?L = example_lib
  let ?a = "avatar_link [] []"
  have 1: "extract_user_image ?L (Some ?a) = Inr []"
    by (rule extract_user_image_cases [of ?L ?a, THEN conjunct2, THEN conjunct1, rule_format])
       (simp add: eval_defs eval_defs2)
  let ?img = "image [(ustr ''alt'', ustr ''alice'')]"
  let ?a = "avatar_link [] [?img]"
  have 2: "extract_user_image ?L (Some ?a) = Inr []"
    by (rule extract_user_image_cases [of ?L ?a, THEN conjunct2, THEN conjunct2, THEN conjunct1,
              rule_format, of ?img])
       (simp add: eval_defs eval_defs2)
  let ?u = "ustr ''/avatar/abc.jpg''"
  let ?img = "image [(ustr ''src'', ?u)]"
  let ?a = "avatar_link [] [?img]"
  have "find_tag ?a (ustr ''img'') None = Some ?img \<and> map_of (attrs ?img) (ustr ''src'') = Some ?u \<and>
        startswith ?u (ustr ''/'')"
    by (simp add: eval_defs eval_defs2)
  moreover have "simple_path ?u"
    by (simp add: simple_path_def url_char_def is_digit_def startswith_def ustr_def)
  ultimately have "extract_user_image ?L (Some ?a) = Inr (ustr ''https://letterboxd.com'' @ ?u)"
    using extract_user_image_cases [of ?L ?a, THEN conjunct2, THEN conjunct2, THEN conjunct2,
              THEN conjunct1, rule_format, of ?img ?u]
    by blast
  then have 3: "extract_user_image ?L (Some ?a) = Inr (ustr ''https://letterboxd.com/avatar/abc.jpg'')"
    by (simp add: ustr_def)
  let ?v = "ustr ''https://a.ltrbxd.com/avatar/abc.jpg''"
  let ?img = "image [(ustr ''src'', ?v)]"
  let ?b = "avatar_link [] [?img]"
  have "find_tag ?b (ustr ''img'') None = Some ?img \<and> map_of (attrs ?img) (ustr ''src'') = Some ?v \<and>
        \<not> startswith ?v (ustr ''/'')"
    by (simp add: eval_defs eval_defs2)
  then have 4: "extract_user_image ?L (Some ?b) = Inr ?v"
    using extract_user_image_cases [of ?L ?b, THEN conjunct2, THEN conjunct2, THEN conjunct2,
              THEN conjunct2, THEN conjunct1, rule_format, of ?img ?v]
    by blast
  let ?img = "image [(ustr ''src'', ?u)]"
  let ?av = "avatar_link [(ustr ''href'', ustr ''/alice/'')] [?img]"
  let ?el = "review_block ?av [] (plain_body [])"
  obtain r where r: "extract_review ?L ?el = Inr (Some r)"
    and r': "r = \<lparr>user = ustr ''alice'', user_image = user_image r,
              review_date = [], review_text = [], rating = None, likes_count = None,
              contains_spoilers = False\<rparr>"
    by (simp add: block_defs urljoin_def BASE_URL_def simple_path_def url_char_def is_digit_def)
  have av: "find_tag ?el (ustr ''a'') (Some (ustr ''avatar'')) = Some ?av"
    by (simp add: eval_defs eval_defs2)
  have "find_tag ?av (ustr ''img'') None = Some ?img \<and> map_of (attrs ?img) (ustr ''src'') = Some ?u \<and>
        startswith ?u (ustr ''/'')"
    by (simp add: eval_defs eval_defs2)
  moreover have "simple_path ?u"
    by (simp add: simple_path_def url_char_def is_digit_def startswith_def ustr_def)
  ultimately have "extract_user_image ?L (Some ?av) = Inr (ustr ''https://letterboxd.com'' @ ?u)"
    using extract_user_image_cases [of ?L ?av, THEN conjunct2, THEN conjunct2, THEN conjunct2,
              THEN conjunct1, rule_format, of ?img ?u]
    by blast
  moreover have "extract_user_image ?L (find_tag ?el (ustr ''a'') (Some (ustr ''avatar''))) =
      Inr (user_image r)"
    using extract_user_image_cases [of ?L ?av, THEN conjunct2, THEN conjunct2, THEN conjunct2,
              THEN conjunct2, THEN conjunct2, rule_format, OF r] .
  ultimately have "user_image r = ustr ''https://letterboxd.com/avatar/abc.jpg''"
    unfolding av by (simp add: ustr_def)
  with r r' have 5: "extract_review ?L ?el =
     Inr (Some \<lparr>user = ustr ''alice'', user_image = ustr ''https://letterboxd.com/avatar/abc.jpg'',
              review_date = [], review_text = [], rating = None, likes_count = None,
              contains_spoilers = False\<rparr>)"
    by simp
  from 1 2 3 4 5 show ?thesis by blast
qed

section \<open>The streaming-service parser: claims\<close>

subsection \<open>C5: the categories\<close>

lemmas json_defs = best_payload_def default_service_def rent_zero_text_def rent_negative_text_def
  two_streams_text_def decoding_def example_lib_def get_services_def get_services_body_def
  categories_def parse_service_def get_def

lemma parse_services_map:
  "parse_services L xs = Inr ss \<longleftrightarrow> map (parse_service L) xs = map Inr ss"
proof (induction xs arbitrary: ss)
  case Nil
  then show ?case by auto
next
  case (Cons x xs)
  show ?case
  proof (cases "parse_service L x")
    case (Inl e)
    then show ?thesis by (cases ss) auto
  next
    case (Inr s)
    show ?thesis
    proof (cases "parse_services L xs")
      case (Inl e)
      with Cons [of "tl ss"] Inr show ?thesis by (cases ss) auto
    next
      case r: (Inr rest)
      with Cons [of rest] Cons [of "tl ss"] Inr show ?thesis by (cases ss) auto
    qed
  qed
qed

lemma category_loop_object:
  "category_loop L (JObject b) cs = Inr result \<longleftrightarrow>
     map fst result = filter (\<lambda>c. c \<in> fst ` set b) cs \<and>
     (\<forall>(c, svcs) \<in> set result.
        \<exists>v entries. map_of b c = Some v \<and> py_iter v = Inr entries \<and>
                    parse_services L entries = Inr svcs)"
proof (induction cs arbitrary: result)
  case Nil
  then show ?case by auto
next
  case (Cons c cs)
  show ?case
  proof (cases "c \<in> fst ` set b")
    case False
    then show ?thesis using Cons [of result] by simp
  next
    case True
    then obtain v where v: "map_of b c = Some v"
      by (metis map_of_eq_None_iff not_Some_eq)
    show ?thesis
    proof
      assume l: "category_loop L (JObject b) (c # cs) = Inr result"
      with True v obtain entries svcs rest where
        e: "py_iter v = Inr entries" and s: "parse_services L entries = Inr svcs"
        and r: "category_loop L (JObject b) cs = Inr rest" and res: "result = (c, svcs) # rest"
        by (auto split: sum.splits)
      from r Cons [of rest] have "map fst rest = filter (\<lambda>c. c \<in> fst ` set b) cs"
        and "\<forall>(c, svcs) \<in> set rest.
          \<exists>v entries. map_of b c = Some v \<and> py_iter v = Inr entries \<and>
                      parse_services L entries = Inr svcs"
        by auto
      with True v e s res show "map fst result = filter (\<lambda>c. c \<in> fst ` set b) (c # cs) \<and>
        (\<forall>(c, svcs) \<in> set result.
          \<exists>v entries. map_of b c = Some v \<and> py_iter v = Inr entries \<and>
                      parse_services L entries = Inr svcs)"
        by auto
    next
      assume a: "map fst result = filter (\<lambda>c. c \<in> fst ` set b) (c # cs) \<and>
        (\<forall>(c, svcs) \<in> set result.
          \<exists>v entries. map_of b c = Some v \<and> py_iter v = Inr entries \<and>
                      parse_services L entries = Inr svcs)"
      with True obtain svcs rest where res: "result = (c, svcs) # rest"
        and m: "map fst rest = filter (\<lambda>c. c \<in> fst ` set b) cs"
        by (cases result) auto
      from a res v obtain entries where e: "py_iter v = Inr entries"
        and s: "parse_services L entries = Inr svcs"
        by auto
      from a res m Cons [of rest] have "category_loop L (JObject b) cs = Inr rest" by auto
      with True v e s res show "category_loop L (JObject b) (c # cs) = Inr result"
        by simp
    qed
  qed
qed

text \<open>
  C5. When the payload decodes to an object whose \<open>best\<close> value is an object, \<open>get_services\<close>
  returns a mapping exactly in this case: its keys are those of \<open>stream\<close>, \<open>rent\<close>, \<open>buy\<close>
  that \<open>best\<close> has, in this order (a category that is absent plays no part), and under
  each key stand the entries of that category, parsed one by one in their order. For a
  category that is an array, the services are as many as the entries and the \<open>i\<close>-th
  service is the \<open>i\<close>-th entry parsed.
\<close>

theorem get_services_categories:
  assumes "lib_json_loads L content = Inr (JObject d)"
    and "map_of d (ustr ''best'') = Some (JObject b)"
  shows "(get_services L content = Inr result \<longleftrightarrow>
           map fst result = filter (\<lambda>c. c \<in> fst ` set b) [ustr ''stream'', ustr ''rent'', ustr ''buy''] \<and>
           (\<forall>(c, svcs) \<in> set result.
              \<exists>v entries. map_of b c = Some v \<and> py_iter v = Inr entries \<and>
                          map (parse_service L) entries = map Inr svcs)) \<and>
         (get_services L content = Inr result \<longrightarrow>
            (\<forall>c svcs xs. (c, svcs) \<in> set result \<and> map_of b c = Some (JArray xs) \<longrightarrow>
               length svcs = length xs \<and>
               (\<forall>i < length xs. parse_service L (xs ! i) = Inr (svcs ! i))))"
proof -
  have body: "get_services_body L content = category_loop L (JObject b) categories"
    using assms by (simp add: get_services_body_def get_def)
  have g: "get_services L content = Inr result \<longleftrightarrow>
           category_loop L (JObject b) categories = Inr result"
    unfolding get_services_def body
    by (auto split: sum.splits error.splits)
  have 1: "get_services L content = Inr result \<longleftrightarrow>
           map fst result = filter (\<lambda>c. c \<in> fst ` set b) [ustr ''stream'', ustr ''rent'', ustr ''buy''] \<and>
           (\<forall>(c, svcs) \<in> set result.
              \<exists>v entries. map_of b c = Some v \<and> py_iter v = Inr entries \<and>
                          map (parse_service L) entries = map Inr svcs)"
    unfolding g category_loop_object parse_services_map categories_def ..
  have 2: "length svcs = length xs \<and> (\<forall>i < length xs. parse_service L (xs ! i) = Inr (svcs ! i))"
    if "get_services L content = Inr result" "(c, svcs) \<in> set result"
      "map_of b c = Some (JArray xs)" for c svcs xs
  proof -
    from that 1 have m: "map (parse_service L) xs = map Inr svcs" by fastforce
    then have len: "length svcs = length xs" by (metis length_map)
    moreover have "parse_service L (xs ! i) = Inr (svcs ! i)" if "i < length xs" for i
      using m that len by (metis nth_map)
    ultimately show ?thesis by blast
  qed
  from 1 2 show ?thesis by blast
qed

lemmas float_defs = float_of_int_def round53_def bit_length.simps

text \<open>
  C5 on \<open>{"best":{"stream":[{"name":"A","price":3},{"name":"B"}]}}\<close>.
\<close>

theorem get_services_categories_witness:
  "lib_json_loads
     (decoding two_streams_text
        (best_payload (ustr ''stream'')
           [JObject [(ustr ''name'', JString (ustr ''A'')), (ustr ''price'', JInt 3)],
            JObject [(ustr ''name'', JString (ustr ''B''))]]))
     two_streams_text =
   Inr (JObject [(ustr ''best'', JObject [(ustr ''stream'', JArray
           [JObject [(ustr ''name'', JString (ustr ''A'')), (ustr ''price'', JInt 3)],
            JObject [(ustr ''name'', JString (ustr ''B''))]])])]) \<and>
   get_services
     (decoding two_streams_text
        (best_payload (ustr ''stream'')
           [JObject [(ustr ''name'', JString (ustr ''A'')), (ustr ''price'', JInt 3)],
            JObject [(ustr ''name'', JString (ustr ''B''))]]))
     two_streams_text =
   Inr [(ustr ''stream'',
         [default_service\<lparr>name := JString (ustr ''A''), price := Some (Finite False 3 0)\<rparr>,
          default_service\<lparr>name := JString (ustr ''B'')\<rparr>])] \<and>
   parse_service
     (decoding two_streams_text
        (best_payload (ustr ''stream'')
           [JObject [(ustr ''name'', JString (ustr ''A'')), (ustr ''price'', JInt 3)],
            JObject [(ustr ''name'', JString (ustr ''B''))]]))
     (JObject [(ustr ''name'', JString (ustr ''B''))]) =
   Inr (default_service\<lparr>name := JString (ustr ''B'')\<rparr>)"
proof -
  let ?e1 = "JObject [(ustr ''name'', JString (ustr ''A'')), (ustr ''price'', JInt 3)]"
  let ?e2 = "JObject [(ustr ''name'', JString (ustr ''B''))]"
  let ?L = "decoding two_streams_text (best_payload (ustr ''stream'') [?e1, ?e2])"
  let ?b = "[(ustr ''stream'', JArray [?e1, ?e2])]"
  let ?s1 = "default_service\<lparr>name := JString (ustr ''A''), price := Some (Finite False 3 0)\<rparr>"
  let ?s2 = "default_service\<lparr>name := JString (ustr ''B'')\<rparr>"
  let ?res = "[(ustr ''stream'', [?s1, ?s2])]"
  have l: "lib_json_loads ?L two_streams_text = Inr (JObject [(ustr ''best'', JObject ?b)])"
    by (simp add: decoding_def best_payload_def)
  have b: "map_of [(ustr ''best'', JObject ?b)] (ustr ''best'') = Some (JObject ?b)"
    by simp
  have g: "get_services ?L two_streams_text = Inr ?res"
    by (simp add: json_defs float_defs ustr_def)
  note t = get_services_categories [OF l b, of ?res, THEN conjunct2, rule_format, OF g,
      of "ustr ''stream''" "[?s1, ?s2]" "[?e1, ?e2]"]
  have "parse_service ?L ([?e1, ?e2] ! 1) = Inr ([?s1, ?s2] ! 1)"
    by (rule t [THEN conjunct2, rule_format]) (simp_all add: ustr_def)
  then have "parse_service ?L ?e2 = Inr ?s2" by simp
  with l g show ?thesis by (simp add: best_payload_def)
qed

subsection \<open>C7: the price\<close>

text \<open>
  C7. For an entry: without \<open>price\<close> key, or with a falsy value under it (\<open>null\<close>, \<open>0\<close> and
  a zero float are falsy), the service is built with the price \<open>None\<close>; with a truthy value
  the price is \<open>float\<close> of that value, whose exception, if any, is that of
  \<open>_parse_service\<close>. A non-zero integer is truthy and converted by \<open>float\<close>; a float is
  kept. The payload \<open>{"best":{"rent":[{"name":"N","price":0}]}}\<close> yields one \<open>rent\<close> entry
  with the price \<open>None\<close>.
\<close>

theorem parse_service_price:
  "(map_of d (ustr ''price'') = None \<longrightarrow>
      (\<exists>s. parse_service L (JObject d) = Inr s \<and> price s = None)) \<and>
   (\<forall>v. map_of d (ustr ''price'') = Some v \<and> \<not> truthy v \<longrightarrow>
      (\<exists>s. parse_service L (JObject d) = Inr s \<and> price s = None)) \<and>
   (\<forall>v f. map_of d (ustr ''price'') = Some v \<and> truthy v \<and> py_float L v = Inr f \<longrightarrow>
      (\<exists>s. parse_service L (JObject d) = Inr s \<and> price s = Some f)) \<and>
   (\<forall>v e. map_of d (ustr ''price'') = Some v \<and> truthy v \<and> py_float L v = Inl e \<longrightarrow>
      parse_service L (JObject d) = Inl e) \<and>
   \<not> truthy JNull \<and> \<not> truthy (JInt 0) \<and> (\<forall>s e. \<not> truthy (JFloat (Finite s 0 e))) \<and>
   (\<forall>n. n \<noteq> 0 \<longrightarrow> truthy (JInt n) \<and> py_float L (JInt n) = float_of_int n) \<and>
   (\<forall>f. py_float L (JFloat f) = Inr f) \<and>
   (lib_json_loads L rent_zero_text =
      Inr (best_payload (ustr ''rent'')
             [JObject [(ustr ''name'', JString (ustr ''N'')), (ustr ''price'', JInt 0)]]) \<longrightarrow>
    get_services L rent_zero_text =
      Inr [(ustr ''rent'', [default_service\<lparr>name := JString (ustr ''N'')\<rparr>])])"
proof -
  have "get_services L rent_zero_text =
      Inr [(ustr ''rent'', [default_service\<lparr>name := JString (ustr ''N'')\<rparr>])]"
    if "lib_json_loads L rent_zero_text =
      Inr (best_payload (ustr ''rent'')
             [JObject [(ustr ''name'', JString (ustr ''N'')), (ustr ''price'', JInt 0)]])"
    using that
    by (simp add: get_services_def get_services_body_def best_payload_def get_def categories_def
        parse_service_def default_service_def ustr_def)
  then show ?thesis
    by (auto simp: parse_service_def get_def)
qed

text \<open>
  C7 on inputs: the payload of the claim, an entry without price, the prices \<open>null\<close> and
  \<open>3\<close>, and a price that is a list.
\<close>

theorem parse_service_price_witness:
  "get_services
     (decoding rent_zero_text
        (best_payload (ustr ''rent'')
           [JObject [(ustr ''name'', JString (ustr ''N'')), (ustr ''price'', JInt 0)]]))
     rent_zero_text =
   Inr [(ustr ''rent'', [default_service\<lparr>name := JString (ustr ''N'')\<rparr>])] \<and>
   price (default_service\<lparr>name := JString (ustr ''N'')\<rparr>) = None \<and>
   (\<exists>s. parse_service example_lib (JObject [(ustr ''name'', JString (ustr ''N''))]) = Inr s \<and>
        price s = None) \<and>
   (\<exists>s. parse_service example_lib (JObject [(ustr ''price'', JNull)]) = Inr s \<and> price s = None) \<and>
   (\<exists>s. parse_service example_lib (JObject [(ustr ''price'', JInt 3)]) = Inr s \<and>
        price s = Some (Finite False 3 0)) \<and>
   parse_service example_lib (JObject [(ustr ''price'', JArray [JInt 3])]) = Inl TypeError"
proof -
  let ?p = "best_payload (ustr ''rent'')
           [JObject [(ustr ''name'', JString (ustr ''N'')), (ustr ''price'', JInt 0)]]"
  let ?L = "decoding rent_zero_text ?p"
  have "lib_json_loads ?L rent_zero_text = Inr ?p" by (simp add: decoding_def)
  then have 1: "get_services ?L rent_zero_text =
      Inr [(ustr ''rent'', [default_service\<lparr>name := JString (ustr ''N'')\<rparr>])]"
    using parse_service_price [of "[]" ?L] by blast
  have 2: "price (default_service\<lparr>name := JString (ustr ''N'')\<rparr>) = None"
    by (simp add: default_service_def)
  let ?d = "[(ustr ''name'', JString (ustr ''N''))]"
  have "map_of ?d (ustr ''price'') = None" by (simp add: ustr_def)
  then have 3: "\<exists>s. parse_service example_lib (JObject ?d) = Inr s \<and> price s = None"
    using parse_service_price [of ?d example_lib] by blast
  let ?d = "[(ustr ''price'', JNull)]"
  have "map_of ?d (ustr ''price'') = Some JNull \<and> \<not> truthy JNull" by simp
  then have 4: "\<exists>s. parse_service example_lib (JObject ?d) = Inr s \<and> price s = None"
    using parse_service_price [of ?d example_lib] by blast
  let ?d = "[(ustr ''price'', JInt 3)]"
  have "map_of ?d (ustr ''price'') = Some (JInt 3) \<and> truthy (JInt 3) \<and>
        py_float example_lib (JInt 3) = Inr (Finite False 3 0)"
    by (simp add: float_defs)
  then have 5: "\<exists>s. parse_service example_lib (JObject ?d) = Inr s \<and>
                    price s = Some (Finite False 3 0)"
    using parse_service_price [of ?d example_lib] by blast
  let ?d = "[(ustr ''price'', JArray [JInt 3])]"
  have "map_of ?d (ustr ''price'') = Some (JArray [JInt 3]) \<and> truthy (JArray [JInt 3]) \<and>
        py_float example_lib (JArray [JInt 3]) = Inl TypeError"
    by simp
  then have 6: "parse_service example_lib (JObject ?d) = Inl TypeError"
    using parse_service_price [of ?d example_lib] by blast
  from 1 2 3 4 5 6 show ?thesis by blast
qed

subsection \<open>C2: the parse error\<close>

text \<open>The exceptions that can leave the \<open>try\<close> block once the text is decoded.\<close>

lemma py_float_error:
  "py_float L v = Inl e \<Longrightarrow>
   e = TypeError \<or> e = OverflowError \<or> (\<exists>r. e = ValueError (float_message @ r))"
  by (cases v) (auto simp: float_of_int_def split: prod.splits if_splits sum.splits)

lemma parse_service_error:
  "parse_service L j = Inl e \<Longrightarrow>
   e = AttributeError \<or> e = TypeError \<or> e = OverflowError \<or>
   (\<exists>r. e = ValueError (float_message @ r))"
  by (cases j) (auto simp: parse_service_def split: if_splits sum.splits dest: py_float_error)

lemma parse_services_error:
  "parse_services L xs = Inl e \<Longrightarrow>
   e = AttributeError \<or> e = TypeError \<or> e = OverflowError \<or>
   (\<exists>r. e = ValueError (float_message @ r))"
proof (induction xs)
  case Nil
  then show ?case by simp
next
  case (Cons x xs)
  then show ?case
    by (auto split: sum.splits dest: parse_service_error)
qed

lemma py_in_error: "py_in k v = Inl e \<Longrightarrow> e = TypeError"
  by (cases v) auto

lemma py_iter_error: "py_iter v = Inl e \<Longrightarrow> e = TypeError"
  by (cases v) auto

lemma getitem_error: "py_in k v = Inr True \<Longrightarrow> getitem v k = Inl e \<Longrightarrow> e = TypeError"
proof (cases v)
  case (JObject d)
  assume "py_in k v = Inr True" "getitem v k = Inl e"
  with JObject show ?thesis
    by (auto split: option.splits simp: map_of_eq_None_iff)
qed auto

lemma category_loop_error:
  "category_loop L best cs = Inl e \<Longrightarrow>
   e = AttributeError \<or> e = TypeError \<or> e = OverflowError \<or>
   (\<exists>r. e = ValueError (float_message @ r))"
proof (induction cs)
  case Nil
  then show ?case by simp
next
  case (Cons c cs)
  show ?case
  proof (cases "py_in c best")
    case (Inl x)
    with Cons.prems show ?thesis by (auto dest: py_in_error)
  next
    case (Inr present)
    show ?thesis
    proof (cases present)
      case False
      with Inr Cons show ?thesis by simp
    next
      case True
      with Inr Cons show ?thesis
        by (auto split: sum.splits
            dest: getitem_error py_iter_error parse_services_error)
    qed
  qed
qed

lemma messages_differ: "float_message @ r \<noteq> parse_message @ m"
proof
  assume "float_message @ r = parse_message @ m"
  then have "hd (float_message @ r) = hd (parse_message @ m)" by simp
  then show False by (simp add: float_message_def parse_message_def ustr_def)
qed

text \<open>
  C2, amended. \<open>get_services\<close> raises the \<open>ValueError\<close> whose message is
  \<open>Could not parse streaming services data:\<close> followed by \<open>str(e)\<close> whenever \<open>json.loads\<close>
  raises a \<open>JSONDecodeError\<close> \<open>e\<close>, and only then: it raises a \<open>ValueError\<close> of that message
  exactly when the decoder raises a \<open>JSONDecodeError\<close> or a \<open>KeyError\<close> with the message
  that follows, or raises that very \<open>ValueError\<close>; never for a text that is decoded. A
  decoded object without \<open>best\<close> key gives the empty mapping.
\<close>

theorem get_services_parse_error:
  "(\<forall>msg. lib_json_loads L content = Inl (JSONDecodeError msg) \<longrightarrow>
      get_services L content = Inl (ValueError (parse_message @ msg))) \<and>
   (\<forall>m. get_services L content = Inl (ValueError (parse_message @ m)) \<longleftrightarrow>
      lib_json_loads L content = Inl (JSONDecodeError m) \<or>
      lib_json_loads L content = Inl (KeyError m) \<or>
      lib_json_loads L content = Inl (ValueError (parse_message @ m))) \<and>
   (\<forall>data m. lib_json_loads L content = Inr data \<longrightarrow>
      get_services L content \<noteq> Inl (ValueError (parse_message @ m))) \<and>
   (\<forall>d. lib_json_loads L content = Inr (JObject d) \<and> map_of d (ustr ''best'') = None \<longrightarrow>
      get_services L content = Inr [])"
proof -
  have 1: "get_services L content = Inl (ValueError (parse_message @ msg))"
    if "lib_json_loads L content = Inl (JSONDecodeError msg)" for msg
    using that by (simp add: get_services_def get_services_body_def)
  have 2: "get_services L content \<noteq> Inl (ValueError (parse_message @ m))"
    if l: "lib_json_loads L content = Inr data" for data m
  proof
    assume g: "get_services L content = Inl (ValueError (parse_message @ m))"
    have b: "e = AttributeError \<or> e = TypeError \<or> e = OverflowError \<or>
             (\<exists>r. e = ValueError (float_message @ r))"
      if "get_services_body L content = Inl e" for e
      using that l
      by (cases data) (auto simp: get_services_body_def dest: category_loop_error)
    show False
    proof (cases "get_services_body L content")
      case (Inl e)
      from b [OF Inl] g Inl show False
        by (auto simp: get_services_def messages_differ)
    next
      case (Inr res)
      with g show False by (simp add: get_services_def)
    qed
  qed
  have 3: "get_services L content = Inr []"
    if "lib_json_loads L content = Inr (JObject d)" "map_of d (ustr ''best'') = None" for d
    using that
    by (simp add: get_services_def get_services_body_def get_def categories_def)
  have 4: "get_services L content = Inl (ValueError (parse_message @ m)) \<longleftrightarrow>
      lib_json_loads L content = Inl (JSONDecodeError m) \<or>
      lib_json_loads L content = Inl (KeyError m) \<or>
      lib_json_loads L content = Inl (ValueError (parse_message @ m))" for m
  proof (cases "lib_json_loads L content")
    case (Inr data)
    with 2 [OF Inr] show ?thesis by simp
  next
    case (Inl e)
    then have "get_services_body L content = Inl e"
      by (simp add: get_services_body_def)
    with Inl show ?thesis
      by (cases e) (simp_all add: get_services_def)
  qed
  from 1 2 3 4 show ?thesis by blast
qed

text \<open>
  C2, as stated, fails: the text \<open>{}\<close> is valid JSON in which the container key \<open>best\<close>
  cannot be traversed, and \<open>get_services\<close> returns the empty mapping instead of raising.
\<close>

theorem get_services_without_best:
  "lib_json_loads (decoding (ustr ''{}'') (JObject [])) (ustr ''{}'') = Inr (JObject []) \<and>
   map_of ([] :: (ustring \<times> json) list) (ustr ''best'') = None \<and>
   get_services (decoding (ustr ''{}'') (JObject [])) (ustr ''{}'') = Inr []"
  by (simp add: json_defs)

text \<open>
  C2 on the malformed text \<open>{\<close> and on the text \<open>{}\<close>.
\<close>

theorem get_services_parse_error_witness:
  "get_services example_lib (ustr ''{'') =
     Inl (ValueError (ustr ''Could not parse streaming services data: Expecting value'')) \<and>
   get_services (decoding (ustr ''{}'') (JObject [])) (ustr ''{}'') = Inr []"
proof -
  have "lib_json_loads example_lib (ustr ''{'') = Inl (JSONDecodeError (ustr ''Expecting value''))"
    by (simp add: example_lib_def)
  then have "get_services example_lib (ustr ''{'') =
      Inl (ValueError (parse_message @ ustr ''Expecting value''))"
    using get_services_parse_error [of example_lib "ustr ''{''"] by blast
  then have 1: "get_services example_lib (ustr ''{'') =
     Inl (ValueError (ustr ''Could not parse streaming services data: Expecting value''))"
    by (simp add: parse_message_def ustr_def)
  let ?L = "decoding (ustr ''{}'') (JObject [])"
  have "lib_json_loads ?L (ustr ''{}'') = Inr (JObject []) \<and>
        map_of ([] :: (ustring \<times> json) list) (ustr ''best'') = None"
    by (simp add: decoding_def)
  then have 2: "get_services ?L (ustr ''{}'') = Inr []"
    using get_services_parse_error [of ?L "ustr ''{}''"] by blast
  from 1 2 show ?thesis by blast
qed

subsection \<open>C6: ratings and prices\<close>

lemma split_fields_no_sep: "x \<in> set (split sep s) \<Longrightarrow> sep \<notin> set x"
proof (induction s arbitrary: x)
  case Nil
  then show ?case by simp
next
  case (Cons c s)
  show ?case
  proof (cases "c = sep")
    case True
    with Cons show ?thesis by auto
  next
    case False
    show ?thesis
    proof (cases "split sep s")
      case Nil
      with Cons.prems False show ?thesis by auto
    next
      case (Cons f fs)
      with Cons.prems Cons.IH False show ?thesis by auto
    qed
  qed
qed

lemma set_strip_chars: "set (strip_chars P s) \<subseteq> set s"
proof -
  have "set (dropWhile P (rev (dropWhile P s))) \<subseteq> set (rev (dropWhile P s))"
    by (rule set_dropWhileD [THEN subsetI])
  also have "\<dots> \<subseteq> set s" by (auto dest: set_dropWhileD)
  finally show ?thesis by (simp add: strip_chars_def)
qed

lemma py_int_nonneg: "py_int L s = Inr n \<Longrightarrow> 45 \<notin> set s \<Longrightarrow> 0 \<le> n"
proof -
  assume p: "py_int L s = Inr n" and s: "45 \<notin> set s"
  have "take 1 (strip_chars int_space s) \<noteq> [45]"
  proof
    assume "take 1 (strip_chars int_space s) = [45]"
    then have "45 \<in> set (take 1 (strip_chars int_space s))" by simp
    then have "45 \<in> set (strip_chars int_space s)" by (rule in_set_takeD)
    with set_strip_chars [of int_space s] s show False by auto
  qed
  with p show ?thesis
    by (auto simp: py_int_def Let_def split: option.splits)
qed

lemma true_div2_halves:
  "true_div2 n = Inr f \<Longrightarrow> 0 \<le> n \<Longrightarrow> \<not> sign_bit f \<and> half_units f \<noteq> None"
  by (auto simp: true_div2_def split: prod.splits if_splits)

lemma int_plus_half_halves:
  "int_plus_half c h = Inr f \<Longrightarrow> \<not> sign_bit f \<and> half_units f \<noteq> None"
  by (auto simp: int_plus_half_def float_of_int_def split: prod.splits if_splits sum.splits)

lemma extract_rating_halves:
  assumes "extract_rating L ab = Inr (Some s)"
  shows "\<exists>f. s = float_str L f \<and> \<not> sign_bit f \<and> half_units f \<noteq> None"
proof -
  from assms obtain a sp where ab: "ab = Some a"
    and sp: "find_tag a (ustr ''span'') (Some (ustr ''rating'')) = Some sp"
    by (auto simp: extract_rating_def split: option.splits)
  show ?thesis
  proof (cases "filter (\<lambda>c. startswith c (ustr ''rated-'')) (classes sp)")
    case Nil
    with assms ab sp show ?thesis
      by (auto simp: extract_rating_def Let_def split: if_splits sum.splits
          dest: int_plus_half_halves)
  next
    case (Cons rc rcs)
    with assms ab sp obtain tok n f where tok: "item (split 45 rc) 1 = Inr tok"
      and n: "py_int L tok = Inr n" and f: "true_div2 n = Inr f" and s: "s = float_str L f"
      by (auto simp: extract_rating_def split: sum.splits)
    from tok have "tok \<in> set (split 45 rc)"
      by (auto simp: item_def split: if_splits)
    then have "45 \<notin> set tok" by (rule split_fields_no_sep)
    with n have "0 \<le> n" by (rule py_int_nonneg)
    with f s true_div2_halves show ?thesis by blast
  qed
qed

lemma parse_service_priced:
  assumes "parse_service L j = Inr svc" and "price svc = Some p"
  shows "\<exists>d v. j = JObject d \<and> map_of d (ustr ''price'') = Some v \<and> truthy v \<and>
               py_float L v = Inr p"
proof -
  from assms(1) obtain d where j: "j = JObject d"
    by (cases j) (simp_all add: parse_service_def)
  let ?v = "get d (ustr ''price'') JNull"
  have t: "truthy ?v"
  proof (rule ccontr)
    assume "\<not> truthy ?v"
    with assms(1) j have "price svc = None"
      by (auto simp: parse_service_def)
    with assms(2) show False by simp
  qed
  then obtain v where v: "map_of d (ustr ''price'') = Some v" and g: "?v = v"
    by (cases "map_of d (ustr ''price'')") (auto simp: get_def)
  from assms(1) j t obtain f where f: "py_float L ?v = Inr f" and "price svc = Some f"
    by (cases "py_float L ?v") (auto simp: parse_service_def)
  with assms(2) have "f = p" by simp
  with f g v t j show ?thesis by auto
qed

lemma parse_services_member:
  "parse_services L xs = Inr ss \<Longrightarrow> svc \<in> set ss \<Longrightarrow>
   \<exists>j \<in> set xs. parse_service L j = Inr svc"
proof (induction xs arbitrary: ss)
  case Nil
  then show ?case by simp
next
  case (Cons x xs)
  then show ?case by (auto split: sum.splits)
qed

lemma category_loop_member:
  "category_loop L best cs = Inr result \<Longrightarrow> (c, svcs) \<in> set result \<Longrightarrow>
   \<exists>v entries. getitem best c = Inr v \<and> py_iter v = Inr entries \<and>
               parse_services L entries = Inr svcs"
proof (induction cs arbitrary: result)
  case Nil
  then show ?case by simp
next
  case (Cons k cs)
  then show ?case by (auto split: sum.splits bool.splits)
qed

lemma get_services_member:
  assumes "get_services L content = Inr result" "(c, svcs) \<in> set result"
  shows "\<exists>data v entries.
           lib_json_loads L content = Inr (JObject data) \<and>
           getitem (get data (ustr ''best'') (JObject [])) c = Inr v \<and>
           py_iter v = Inr entries \<and> parse_services L entries = Inr svcs"
proof -
  from assms(1) have "get_services_body L content = Inr result"
    by (auto simp: get_services_def split: sum.splits error.splits)
  then obtain data where d: "lib_json_loads L content = Inr (JObject data)"
    and "category_loop L (get data (ustr ''best'') (JObject [])) categories = Inr result"
    by (auto simp: get_services_body_def split: sum.splits json.splits)
  from category_loop_member [OF this(2) assms(2)] d show ?thesis by blast
qed

text \<open>
  C6, amended. The text of a review is a string and its spoiler flag a boolean by the
  types of the record. The rating of a review returned by \<open>extract_reviews\<close>, when present,
  is \<open>str\<close> of a float that is a whole number of halves and not negative; it is not
  bounded by five. The price of a service returned by \<open>get_services\<close> under a category,
  when present, is \<open>float\<close> of the \<open>price\<close> value of an entry of that category in the decoded
  payload, the entry of which the service is the parse; that value is truthy, and it can
  be negative.
\<close>

theorem review_and_service_invariants:
  "(\<forall>rs r s.
      extract_reviews L soup = Inr rs \<and> r \<in> set rs \<and> rating r = Some s \<longrightarrow>
      (\<exists>f. s = float_str L f \<and> \<not> sign_bit f \<and> half_units f \<noteq> None)) \<and>
   (\<forall>result c svcs svc p.
      get_services L content = Inr result \<and> (c, svcs) \<in> set result \<and> svc \<in> set svcs \<and>
      price svc = Some p \<longrightarrow>
      (\<exists>data cat entries d v.
         lib_json_loads L content = Inr (JObject data) \<and>
         getitem (get data (ustr ''best'') (JObject [])) c = Inr cat \<and>
         py_iter cat = Inr entries \<and> JObject d \<in> set entries \<and>
         parse_service L (JObject d) = Inr svc \<and>
         map_of d (ustr ''price'') = Some v \<and> truthy v \<and> py_float L v = Inr p))"
proof -
  have 1: "\<exists>f. s = float_str L f \<and> \<not> sign_bit f \<and> half_units f \<noteq> None"
    if "extract_reviews L soup = Inr rs" "r \<in> set rs" "rating r = Some s" for rs r s
  proof -
    from that(1,2) obtain el where "extract_review L el = Inr (Some r)"
      unfolding extract_reviews_def by (blast dest: extract_loop_member)
    from extract_review_Some [OF this] that(3) obtain ab where
      "extract_rating L ab = Inr (Some s)" by auto
    then show ?thesis by (rule extract_rating_halves)
  qed
  have 2: "\<exists>data cat entries d v.
         lib_json_loads L content = Inr (JObject data) \<and>
         getitem (get data (ustr ''best'') (JObject [])) c = Inr cat \<and>
         py_iter cat = Inr entries \<and> JObject d \<in> set entries \<and>
         parse_service L (JObject d) = Inr svc \<and>
         map_of d (ustr ''price'') = Some v \<and> truthy v \<and> py_float L v = Inr p"
    if "get_services L content = Inr result" "(c, svcs) \<in> set result" "svc \<in> set svcs"
      "price svc = Some p" for result c svcs svc p
  proof -
    from get_services_member [OF that(1,2)] obtain data cat entries where
      l: "lib_json_loads L content = Inr (JObject data)"
      and g: "getitem (get data (ustr ''best'') (JObject [])) c = Inr cat"
      and i: "py_iter cat = Inr entries" and s: "parse_services L entries = Inr svcs"
      by blast
    from parse_services_member [OF s that(3)] obtain j where
      j: "j \<in> set entries" and ps: "parse_service L j = Inr svc" by blast
    from parse_service_priced [OF ps that(4)] obtain d v where
      "j = JObject d" "map_of d (ustr ''price'') = Some v" "truthy v" "py_float L v = Inr p"
      by blast
    with l g i j ps show ?thesis by blast
  qed
  from 1 2 show ?thesis by blast
qed

lemmas rating_defs = py_int_def int_digits_def is_digit_def digits_value_def int_space_def
  true_div2_def round53_def bit_length.simps float_str_def

text \<open>
  C6, as stated, fails: the class token \<open>rated-12\<close> gives the rating \<open>6.0\<close>, and the price
  \<open>-5\<close> of an entry gives a negative price.
\<close>

theorem rating_above_five_and_negative_price:
  "extract_reviews example_lib
     (document [review_block (avatar_link [(ustr ''href'', ustr ''/alice/'')] [])
                  [rating_span [ustr ''rated-12''] []] (plain_body [])]) =
   Inr [\<lparr>user = ustr ''alice'', user_image = [], review_date = [], review_text = [],
         rating = Some (ustr ''6.0''), likes_count = None, contains_spoilers = False\<rparr>] \<and>
   get_services
     (decoding rent_negative_text
        (best_payload (ustr ''rent'')
           [JObject [(ustr ''name'', JString (ustr ''N'')), (ustr ''price'', JInt (- 5))]]))
     rent_negative_text =
   Inr [(ustr ''rent'',
         [default_service\<lparr>name := JString (ustr ''N''), price := Some (Finite True 5 0)\<rparr>])] \<and>
   float_negative (Finite True 5 0)"
  by (simp add: block_defs rating_defs json_defs float_defs)

text \<open>
  C6 on a page with one review rated \<open>rated-7\<close> and on a payload with the price \<open>3\<close>.
\<close>

theorem review_and_service_invariants_witness:
  "extract_reviews example_lib
     (document [review_block (avatar_link [(ustr ''href'', ustr ''/alice/'')] [])
                  [rating_span [ustr ''rated-7''] []] (plain_body [])]) =
   Inr [\<lparr>user = ustr ''alice'', user_image = [], review_date = [], review_text = [],
         rating = Some (ustr ''3.5''), likes_count = None, contains_spoilers = False\<rparr>] \<and>
   (\<exists>f. ustr ''3.5'' = float_str example_lib f \<and> \<not> sign_bit f \<and> half_units f \<noteq> None) \<and>
   get_services
     (decoding two_streams_text
        (best_payload (ustr ''stream'')
           [JObject [(ustr ''name'', JString (ustr ''A'')), (ustr ''price'', JInt 3)],
            JObject [(ustr ''name'', JString (ustr ''B''))]]))
     two_streams_text =
   Inr [(ustr ''stream'',
         [default_service\<lparr>name := JString (ustr ''A''), price := Some (Finite False 3 0)\<rparr>,
          default_service\<lparr>name := JString (ustr ''B'')\<rparr>])] \<and>
   (\<exists>entries d v.
      py_iter (JArray
           [JObject [(ustr ''name'', JString (ustr ''A'')), (ustr ''price'', JInt 3)],
            JObject [(ustr ''name'', JString (ustr ''B''))]]) = Inr entries \<and>
      JObject d \<in> set entries \<and>
      map_of d (ustr ''price'') = Some v \<and> truthy v \<and>
      py_float
        (decoding two_streams_text
           (best_payload (ustr ''stream'')
              [JObject [(ustr ''name'', JString (ustr ''A'')), (ustr ''price'', JInt 3)],
               JObject [(ustr ''name'', JString (ustr ''B''))]])) v =
      Inr (Finite False 3 0))"
proof -
  let ?soup = "document [review_block (avatar_link [(ustr ''href'', ustr ''/alice/'')] [])
                  [rating_span [ustr ''rated-7''] []] (plain_body [])]"
  let ?r = "\<lparr>user = ustr ''alice'', user_image = [], review_date = [], review_text = [],
         rating = Some (ustr ''3.5''), likes_count = None, contains_spoilers = False\<rparr>"
  have r: "extract_reviews example_lib ?soup = Inr [?r]"
    by (simp add: block_defs rating_defs)
  have 1: "\<exists>f. ustr ''3.5'' = float_str example_lib f \<and> \<not> sign_bit f \<and> half_units f \<noteq> None"
    by (rule review_and_service_invariants [of example_lib ?soup, THEN conjunct1, rule_format,
          of "[?r]" ?r]) (simp add: r)
  let ?e1 = "JObject [(ustr ''name'', JString (ustr ''A'')), (ustr ''price'', JInt 3)]"
  let ?e2 = "JObject [(ustr ''name'', JString (ustr ''B''))]"
  let ?p = "best_payload (ustr ''stream'') [?e1, ?e2]"
  let ?L = "decoding two_streams_text ?p"
  let ?s1 = "default_service\<lparr>name := JString (ustr ''A''), price := Some (Finite False 3 0)\<rparr>"
  let ?s2 = "default_service\<lparr>name := JString (ustr ''B'')\<rparr>"
  have g: "get_services ?L two_streams_text = Inr [(ustr ''stream'', [?s1, ?s2])]"
    by (simp add: json_defs float_defs ustr_def)
  have l: "lib_json_loads ?L two_streams_text =
      Inr (JObject [(ustr ''best'', JObject [(ustr ''stream'', JArray [?e1, ?e2])])])"
    by (simp add: decoding_def best_payload_def)
  have "\<exists>data cat entries d v.
         lib_json_loads ?L two_streams_text = Inr (JObject data) \<and>
         getitem (get data (ustr ''best'') (JObject [])) (ustr ''stream'') = Inr cat \<and>
         py_iter cat = Inr entries \<and> JObject d \<in> set entries \<and>
         parse_service ?L (JObject d) = Inr ?s1 \<and>
         map_of d (ustr ''price'') = Some v \<and> truthy v \<and>
         py_float ?L v = Inr (Finite False 3 0)"
    by (rule review_and_service_invariants [of ?L _ two_streams_text, THEN conjunct2, rule_format,
          of "[(ustr ''stream'', [?s1, ?s2])]" "ustr ''stream''" "[?s1, ?s2]" ?s1])
       (simp add: g default_service_def)
  then obtain cat entries d v where
    "getitem (get [(ustr ''best'', JObject [(ustr ''stream'', JArray [?e1, ?e2])])]
        (ustr ''best'') (JObject [])) (ustr ''stream'') = Inr cat"
    and e: "py_iter cat = Inr entries" "JObject d \<in> set entries"
      "map_of d (ustr ''price'') = Some v" "truthy v" "py_float ?L v = Inr (Finite False 3 0)"
    unfolding l by auto
  then have "cat = JArray [?e1, ?e2]" by (simp add: get_def)
  with e have 2: "\<exists>entries d v.
      py_iter (JArray [?e1, ?e2]) = Inr entries \<and> JObject d \<in> set entries \<and>
      map_of d (ustr ''price'') = Some v \<and> truthy v \<and>
      py_float ?L v = Inr (Finite False 3 0)"
    by blast
  from r 1 g 2 show ?thesis by blast
qed

end
